theory Spec2Isabelle
  imports Main "HOL-Library.Sublist"
begin

section \<open>Errors\<close>

text \<open>
  Every Go \<^verbatim>\<open>error\<close> value and every run-time panic of \<^verbatim>\<open>sbox.go\<close> is a value of
  one datatype. \<open>Wrap msg e\<close> stands for \<^verbatim>\<open>fmt.Errorf(msg + ": %v", e)\<close>, \<open>Err msg\<close> for an
  error that carries only a message, \<open>Panic msg\<close> for a \<^verbatim>\<open>panic\<close> (an explicit one or a nil
  dereference). The remaining constructors are the errors of the external collaborators:
  a host descriptor that cannot be imported, the two descriptor-table errors, and the two
  path-resolution errors.
\<close>

datatype error =
    Err string
  | Wrap string error
  | Panic string
  | ImportError int
  | EBADF
  | EMFILE
  | NotFound
  | SymlinkLimitExceeded

section \<open>File objects and the descriptor table\<close>

text \<open>
  An \<^verbatim>\<open>*fs.File\<close> is a handle into a heap of file objects; two pointers are equal exactly
  when the handles are. The heap is a list and a handle is an index into it, so an
  allocation appends and never reuses a handle.
\<close>

type_synonym handle = nat

type_synonym FileOwner = "nat \<times> nat"

record File =
  host_fd :: int
  file_owner :: FileOwner
  isTTY :: bool
  refs :: nat
  fgProcessGroup :: "nat option"

type_synonym heap = "File list"

text \<open>
  Modelled from the spec: \<^verbatim>\<open>host.ImportFile(ctx, hostFD, mounter, isTTY)\<close>, which is not
  part of \<^verbatim>\<open>sbox.go\<close>. It fails on a host descriptor that is invalid or cannot be imported
  (the predicate \<open>importable\<close> is the host's side of it) and otherwise makes a new file
  object, a terminal file or a regular one, holding one reference.
\<close>

definition ImportFile ::
  "(int \<Rightarrow> bool) \<Rightarrow> heap \<Rightarrow> int \<Rightarrow> FileOwner \<Rightarrow> bool \<Rightarrow> (error + handle) \<times> heap" where
  "ImportFile importable hp hostFD mounter tty =
     (if importable hostFD
      then (Inr (length hp),
            hp @ [\<lparr>host_fd = hostFD, file_owner = mounter, isTTY = tty, refs = 1,
                   fgProcessGroup = None\<rparr>])
      else (Inl (ImportError hostFD), hp))"

definition IncRef :: "handle \<Rightarrow> heap \<Rightarrow> heap" where
  "IncRef h hp = (if h < length hp then hp[h := (hp ! h)\<lparr>refs := Suc (refs (hp ! h))\<rparr>] else hp)"

definition DecRef :: "handle \<Rightarrow> heap \<Rightarrow> heap" where
  "DecRef h hp = (if h < length hp then hp[h := (hp ! h)\<lparr>refs := refs (hp ! h) - 1\<rparr>] else hp)"

text \<open>
  Modelled from the spec: \<^verbatim>\<open>kernel.FDMap\<close>, the descriptor table, which is not part of
  \<^verbatim>\<open>sbox.go\<close>. It is itself reference counted, maps a small non-negative sandbox
  descriptor number to a file handle, and holds one reference on the file for each slot.
\<close>

record FDMap =
  fd_table :: "(int \<times> handle) list"
  fdm_refs :: nat

definition NewFDMap :: FDMap where
  "NewFDMap = \<lparr>fd_table = [], fdm_refs = 1\<rparr>"

definition fd_slot :: "FDMap \<Rightarrow> int \<Rightarrow> handle option" where
  "fd_slot fdm fd = map_of (fd_table fdm) fd"

text \<open>
  \<^verbatim>\<open>fdm.NewFDAt(fd, file, flags, limits)\<close>: refuses a negative descriptor and one at or
  beyond the open-files limit \<open>l\<close>; otherwise takes a reference on the file and binds the
  slot, releasing a file the slot held before.
\<close>

definition NewFDAt :: "FDMap \<Rightarrow> int \<Rightarrow> handle \<Rightarrow> nat \<Rightarrow> heap \<Rightarrow> (error + FDMap) \<times> heap" where
  "NewFDAt fdm fd file l hp =
     (if fd < 0 then (Inl EBADF, hp)
      else if l \<le> nat fd then (Inl EMFILE, hp)
      else (Inr (fdm\<lparr>fd_table := (fd, file) # filter (\<lambda>e. fst e \<noteq> fd) (fd_table fdm)\<rparr>),
            (case fd_slot fdm fd of
               None \<Rightarrow> IncRef file hp
             | Some old \<Rightarrow> DecRef old (IncRef file hp))))"

text \<open>\<^verbatim>\<open>fdm.GetFile(fd)\<close> returns the file of a slot with a new reference, or nil.\<close>

definition GetFile :: "FDMap \<Rightarrow> int \<Rightarrow> heap \<Rightarrow> handle option \<times> heap" where
  "GetFile fdm fd hp =
     (case fd_slot fdm fd of None \<Rightarrow> (None, hp) | Some f \<Rightarrow> (Some f, IncRef f hp))"

definition FDMap_IncRef :: "FDMap \<Rightarrow> FDMap" where
  "FDMap_IncRef fdm = fdm\<lparr>fdm_refs := Suc (fdm_refs fdm)\<rparr>"

text \<open>Dropping the last reference of the table releases the file of every slot.\<close>

definition FDMap_DecRef :: "FDMap \<Rightarrow> heap \<Rightarrow> FDMap \<times> heap" where
  "FDMap_DecRef fdm hp =
     (if fdm_refs fdm = 1
      then (fdm\<lparr>fd_table := [], fdm_refs := 0\<rparr>, fold DecRef (map snd (fd_table fdm)) hp)
      else (fdm\<lparr>fdm_refs := fdm_refs fdm - 1\<rparr>, hp))"

section \<open>createFDMap\<close>

text \<open>
  The body of the \<^verbatim>\<open>for appFD, hostFD := range fdMap\<close> loop up to the file it binds:
  either the terminal file (imported on the first visit, re-used afterwards) or a regular
  host file. Every import registers a deferred \<^verbatim>\<open>appFile.DecRef()\<close>, collected newest first.
\<close>

definition stdio_file ::
  "(int \<Rightarrow> bool) \<Rightarrow> bool \<Rightarrow> FileOwner \<Rightarrow> int \<Rightarrow> int \<Rightarrow> handle option \<Rightarrow> handle list \<Rightarrow> heap
     \<Rightarrow> (error + handle \<times> handle option \<times> handle list) \<times> heap" where
  "stdio_file importable console mounter appFD hostFD ttyFile deferred hp =
     (if console \<and> appFD < 3 then
        (case ttyFile of
           None \<Rightarrow>
             (case ImportFile importable hp hostFD mounter True of
                (Inl e, hp1) \<Rightarrow> (Inl e, hp1)
              | (Inr appFile, hp1) \<Rightarrow> (Inr (appFile, Some appFile, appFile # deferred), hp1))
         | Some t \<Rightarrow> (Inr (t, Some t, deferred), hp))
      else
        (case ImportFile importable hp hostFD mounter False of
           (Inl e, hp1) \<Rightarrow> (Inl e, hp1)
         | (Inr appFile, hp1) \<Rightarrow> (Inr (appFile, ttyFile, appFile # deferred), hp1)))"

text \<open>
  The loop over the entries of the Go map, in the order the run time visits them. The
  result is the error that ended the loop, if any, the deferred releases, the table and
  the heap.
\<close>

fun range_fdMap ::
  "(int \<Rightarrow> bool) \<Rightarrow> bool \<Rightarrow> FileOwner \<Rightarrow> nat \<Rightarrow> (int \<times> int) list \<Rightarrow> handle option \<Rightarrow> handle list
     \<Rightarrow> FDMap \<Rightarrow> heap \<Rightarrow> error option \<times> handle list \<times> FDMap \<times> heap" where
  "range_fdMap importable console mounter l [] ttyFile deferred fdm hp =
     (None, deferred, fdm, hp)"
| "range_fdMap importable console mounter l ((appFD, hostFD) # rest) ttyFile deferred fdm hp =
     (case stdio_file importable console mounter appFD hostFD ttyFile deferred hp of
        (Inl e, hp1) \<Rightarrow> (Some e, deferred, fdm, hp1)
      | (Inr (appFile, ttyFile', deferred'), hp1) \<Rightarrow>
          (case NewFDAt fdm appFD appFile l hp1 of
             (Inl e, hp2) \<Rightarrow> (Some e, deferred', fdm, hp2)
           | (Inr fdm', hp2) \<Rightarrow>
               range_fdMap importable console mounter l rest ttyFile' deferred' fdm' hp2))"

text \<open>
  Go leaves the iteration order of a map unspecified. \<open>order\<close> is the sequence of keys in
  which one execution of \<^verbatim>\<open>range fdMap\<close> visits the map; \<open>range_entries\<close> pairs each key
  with its value. For the three-entry map of \<^verbatim>\<open>createFDMap\<close> an iteration order is any
  arrangement of the keys 0, 1, 2.
\<close>

definition range_entries :: "(int \<times> int) list \<Rightarrow> int list \<Rightarrow> (int \<times> int) list" where
  "range_entries m order = List.map_filter (\<lambda>k. map_option (Pair k) (map_of m k)) order"

definition iteration_order :: "int list \<Rightarrow> bool" where
  "iteration_order order \<longleftrightarrow> distinct order \<and> set order = {0, 1, 2}"

definition FileOwnerFromContext :: "FileOwner \<Rightarrow> FileOwner" where
  "FileOwnerFromContext ctx = ctx"

text \<open>
  \<^verbatim>\<open>createFDMap(ctx, k, l, console, stdioFDs)\<close>. The deferred calls run when the function
  returns, on the error paths as well: the file releases newest first, then
  \<^verbatim>\<open>fdm.DecRef()\<close>, which was deferred first. On success \<^verbatim>\<open>fdm.IncRef()\<close> runs before them.
\<close>

definition createFDMap ::
  "(int \<Rightarrow> bool) \<Rightarrow> FileOwner \<Rightarrow> nat \<Rightarrow> bool \<Rightarrow> int list \<Rightarrow> int list \<Rightarrow> heap \<Rightarrow> (error + FDMap) \<times> heap" where
  "createFDMap importable ctx l console stdioFDs order hp =
     (if length stdioFDs \<noteq> 3
      then (Inl (Err ''stdioFDs should contain exactly 3 FDs (stdin, stdout, and stderr)''), hp)
      else
        (let mounter = FileOwnerFromContext ctx;
             fdMap = [(0, stdioFDs ! 0), (1, stdioFDs ! 1), (2, stdioFDs ! 2)]
         in case range_fdMap importable console mounter l (range_entries fdMap order)
                   None [] NewFDMap hp of
              (Some e, deferred, fdm, hp1) \<Rightarrow>
                (Inl e, snd (FDMap_DecRef fdm (fold DecRef deferred hp1)))
            | (None, deferred, fdm, hp1) \<Rightarrow>
                (case FDMap_DecRef (FDMap_IncRef fdm) (fold DecRef deferred hp1) of
                   (fdm', hp2) \<Rightarrow> (Inr fdm', hp2))))"

section \<open>Inode trees and the external mount contracts\<close>

text \<open>
  \<^verbatim>\<open>fs.MountSourceFlags\<close>: the source names one field, \<^verbatim>\<open>ReadOnly\<close>;
  \<^verbatim>\<open>fs.MountSourceFlags{}\<close> is the zero value, with \<^verbatim>\<open>ReadOnly\<close> false.
\<close>

record MountSourceFlags =
  ReadOnly :: bool

definition zero_flags :: MountSourceFlags where
  "zero_flags = \<lparr>ReadOnly = False\<rparr>"

text \<open>
  An \<^verbatim>\<open>*fs.Inode\<close> records how it was made: by the \<^verbatim>\<open>Mount\<close> of a registered filesystem
  (its name, then the device, flags and data arguments of the call), by
  \<^verbatim>\<open>ramfs.MakeDirectoryTree\<close> (the flags of its mount source and the paths), or by
  \<^verbatim>\<open>fs.NewOverlayRoot\<close> (upper, lower, flags). A Go pointer that may be nil is an
  \<open>Inode option\<close>.
\<close>

datatype Inode =
    Mounted string string MountSourceFlags string
  | DirectoryTree MountSourceFlags "string list"
  | OverlayRoot Inode Inode MountSourceFlags

datatype node = Dir | RegularFile string | Symlink string

type_synonym tree = "string list \<Rightarrow> node option"

text \<open>
  The world outside \<^verbatim>\<open>sbox.go\<close> that root assembly talks to: the working directory, the
  filesystem registry, the failures of the external calls, \<^verbatim>\<open>filepath.Join\<close>, and the
  entries behind each mounted filesystem (keyed by filesystem name and mount data).
\<close>

record env =
  Getwd :: "error + string"
  registered :: "string \<Rightarrow> bool"
  mount_error :: "string \<Rightarrow> string \<Rightarrow> string \<Rightarrow> error option"
  tree_error :: "string list \<Rightarrow> error option"
  overlay_error :: "Inode \<Rightarrow> Inode \<Rightarrow> error option"
  Join :: "string \<Rightarrow> string \<Rightarrow> string"
  backing :: "string \<Rightarrow> string \<Rightarrow> tree"
  namespace_error :: "Inode \<Rightarrow> error option"
  attach_error :: "string list \<Rightarrow> Inode \<Rightarrow> error option"

text \<open>
  A panic is not an error value: it unwinds through every caller unchanged, so
  \<^verbatim>\<open>fmt.Errorf\<close> never wraps it.
\<close>

fun Errorf :: "string \<Rightarrow> error \<Rightarrow> error" where
  "Errorf msg (Panic p) = Panic p"
| "Errorf msg e = Wrap msg e"

text \<open>
  Modelled from the spec: the Mount Source Registry (\<^verbatim>\<open>fs.FindFilesystem\<close>, then \<^verbatim>\<open>Mount\<close>
  of what it finds) and the Synthetic Subtree Builder (\<^verbatim>\<open>ramfs.MakeDirectoryTree\<close>), which
  are not part of \<^verbatim>\<open>sbox.go\<close>. Each either fails or produces the tree it was asked for.
\<close>

definition FindFilesystem :: "env \<Rightarrow> string \<Rightarrow> string option" where
  "FindFilesystem e name = (if registered e name then Some name else None)"

definition fs_Mount :: "env \<Rightarrow> string \<Rightarrow> string \<Rightarrow> MountSourceFlags \<Rightarrow> string \<Rightarrow> error + Inode" where
  "fs_Mount e name device flags data =
     (case mount_error e name device data of
        Some err \<Rightarrow> Inl err
      | None \<Rightarrow> Inr (Mounted name device flags data))"

definition MakeDirectoryTree :: "env \<Rightarrow> MountSourceFlags \<Rightarrow> string list \<Rightarrow> error + Inode" where
  "MakeDirectoryTree e msrc subdirs =
     (case tree_error e subdirs of
        Some err \<Rightarrow> Inl err
      | None \<Rightarrow> Inr (DirectoryTree msrc subdirs))"

text \<open>
  Modelled from the spec: the Overlay Composer \<^verbatim>\<open>fs.NewOverlayRoot(ctx, upper, lower, flags)\<close>,
  which is not part of \<^verbatim>\<open>sbox.go\<close>. It composes two trees without changing them and may
  refuse two trees it finds incompatible. It reads both inodes, so a nil argument is a nil
  dereference.
\<close>

definition NewOverlayRoot ::
  "env \<Rightarrow> Inode option \<Rightarrow> Inode option \<Rightarrow> MountSourceFlags \<Rightarrow> error + Inode" where
  "NewOverlayRoot e upper lower flags =
     (case upper of
        None \<Rightarrow> Inl (Panic ''nil pointer dereference'')
      | Some u \<Rightarrow>
          (case lower of
             None \<Rightarrow> Inl (Panic ''nil pointer dereference'')
           | Some lo \<Rightarrow>
               (case overlay_error e u lo of
                  Some err \<Rightarrow> Inl err
                | None \<Rightarrow> Inr (OverlayRoot u lo flags))))"

section \<open>Root assembly\<close>

definition addSubmountOverlay :: "env \<Rightarrow> Inode option \<Rightarrow> string list \<Rightarrow> error + Inode" where
  "addSubmountOverlay e inode submounts =
     (case MakeDirectoryTree e zero_flags submounts of
        Inl err \<Rightarrow> Inl (Errorf ''error creating mount tree'' err)
      | Inr mountTree \<Rightarrow>
          (case NewOverlayRoot e inode (Some mountTree) zero_flags of
             Inl err \<Rightarrow> Inl (Errorf ''failed to make mount overlay'' err)
           | Inr overlayInode \<Rightarrow> Inr overlayInode))"

text \<open>\<^verbatim>\<open>filepath.IsAbs\<close> on a Unix host: the path starts with a slash.\<close>

fun IsAbs :: "string \<Rightarrow> bool" where
  "IsAbs [] = False"
| "IsAbs (c # cs) = (c = CHR ''/'')"

text \<open>
  The \<^verbatim>\<open>for i, m := range mounts\<close> loop of \<^verbatim>\<open>createRootMount\<close>, with its two variables
  \<^verbatim>\<open>rootInode\<close> and \<^verbatim>\<open>prevInode\<close> (both nil before the loop) as the pair it passes on.
\<close>

fun mount_loop ::
  "env \<Rightarrow> string \<Rightarrow> string \<Rightarrow> MountSourceFlags \<Rightarrow> nat \<Rightarrow> string list \<Rightarrow> Inode option \<times> Inode option
     \<Rightarrow> error + Inode option \<times> Inode option" where
  "mount_loop e wd host mf i [] (rootInode, prevInode) = Inr (rootInode, prevInode)"
| "mount_loop e wd host mf i (m # ms) (rootInode, prevInode) =
     (let m' = (if \<not> IsAbs m then Join e wd m else m) in
      case fs_Mount e host '''' mf (''root='' @ m') of
        Inl err \<Rightarrow> Inl (Errorf ''failed to generate root mount point'' err)
      | Inr r \<Rightarrow>
          (if i \<noteq> 0 then
             (case NewOverlayRoot e (Some r) prevInode zero_flags of
                Inl err \<Rightarrow> Inl (Errorf ''failed to make mount overlay'' err)
              | Inr r' \<Rightarrow> mount_loop e wd host mf (Suc i) ms (Some r', Some r'))
           else mount_loop e wd host mf (Suc i) ms (Some r, Some r)))"

definition submounts :: "string list" where
  "submounts = [''/dev'', ''/sys'', ''/proc'', ''/tmp'']"

definition createRootMount :: "env \<Rightarrow> string list \<Rightarrow> error + Inode" where
  "createRootMount e mounts =
     (let mf = \<lparr>ReadOnly = False\<rparr> in
      case Getwd e of
        Inl err \<Rightarrow> Inl err
      | Inr wd \<Rightarrow>
          (case FindFilesystem e ''whitelistfs'' of
             None \<Rightarrow> Inl (Panic ''could not find filesystem host'')
           | Some host \<Rightarrow>
               (case mount_loop e wd host mf 0 mounts (None, None) of
                  Inl err \<Rightarrow> Inl err
                | Inr (rootInode, prevInode) \<Rightarrow>
                    (case addSubmountOverlay e rootInode submounts of
                       Inl err \<Rightarrow> Inl (Errorf ''error adding submount overlay'' err)
                     | Inr rootInode1 \<Rightarrow>
                         (case FindFilesystem e ''tmpfs'' of
                            None \<Rightarrow> Inl (Panic ''could not find filesystem tmpfs'')
                          | Some tmpfs \<Rightarrow>
                              (case fs_Mount e tmpfs ''upper'' zero_flags '''' of
                                 Inl err \<Rightarrow> Inl (Errorf ''failed to create tmpfs overlay'' err)
                               | Inr upper \<Rightarrow>
                                   (case NewOverlayRoot e (Some upper) (Some rootInode1) zero_flags of
                                      Inl err \<Rightarrow> Inl (Errorf ''failed to make mount overlay'' err)
                                    | Inr rootInode2 \<Rightarrow> Inr rootInode2)))))))"

section \<open>What an inode tree contains\<close>

text \<open>
  \<^verbatim>\<open>strings.Split(s, sep)\<close> for a one-character separator: the pieces between the
  separators, always at least one piece (the empty string splits into one empty piece).
\<close>

fun Split :: "string \<Rightarrow> char \<Rightarrow> string list" where
  "Split [] sep = [[]]"
| "Split (c # cs) sep =
     (if c = sep then [] # Split cs sep
      else (case Split cs sep of
              [] \<Rightarrow> [[c]]
            | w # ws \<Rightarrow> (c # w) # ws))"

text \<open>The names of a slash-separated path, empty names dropped.\<close>

definition path_components :: "string \<Rightarrow> string list" where
  "path_components p = filter (\<lambda>c. c \<noteq> []) (Split p CHR ''/'')"

text \<open>
  Modelled from the spec: the entries of the trees that the external filesystems produce
  (their implementations are not part of \<^verbatim>\<open>sbox.go\<close>). A content state gives the
  entries of every tree that is not an overlay. When it is mounted, a host whitelist or
  process-info tree holds what backs it, the temporary-storage tree is fresh (its root
  alone), and a synthetic subtree holds exactly the given paths, with the directories
  leading to them, as empty directories.
\<close>

fun initial_content :: "env \<Rightarrow> Inode \<Rightarrow> tree" where
  "initial_content e (Mounted name device flags data) p =
     (if name = ''tmpfs'' then (if p = [] then Some Dir else None)
      else backing e name data p)"
| "initial_content e (DirectoryTree msrc subdirs) p =
     (if p = [] \<or> list_ex (\<lambda>d. prefix p (path_components d)) subdirs then Some Dir else None)"
| "initial_content e (OverlayRoot upper lower flags) p = None"

text \<open>
  Modelled from the spec: the Overlay Composer's contract. The upper tree's entries
  shadow the lower tree's entries at matching paths, and writes land in the upper tree.
\<close>

fun lookup :: "(Inode \<Rightarrow> tree) \<Rightarrow> Inode \<Rightarrow> tree" where
  "lookup st (OverlayRoot upper lower flags) p =
     (case lookup st upper p of
        Some v \<Rightarrow> Some v
      | None \<Rightarrow> lookup st lower p)"
| "lookup st (Mounted name device flags data) p = st (Mounted name device flags data) p"
| "lookup st (DirectoryTree msrc subdirs) p = st (DirectoryTree msrc subdirs) p"

fun write_target :: "Inode \<Rightarrow> Inode" where
  "write_target (OverlayRoot upper lower flags) = write_target upper"
| "write_target (Mounted name device flags data) = Mounted name device flags data"
| "write_target (DirectoryTree msrc subdirs) = DirectoryTree msrc subdirs"

definition write_inode :: "Inode \<Rightarrow> string list \<Rightarrow> node \<Rightarrow> (Inode \<Rightarrow> tree) \<Rightarrow> (Inode \<Rightarrow> tree)" where
  "write_inode root p v st = st(write_target root := (st (write_target root))(p \<mapsto> v))"

text \<open>The host whitelist mounts of a tree, lower layers first, and every flag set in it.\<close>

fun host_mounts :: "Inode \<Rightarrow> Inode list" where
  "host_mounts (OverlayRoot upper lower flags) = host_mounts lower @ host_mounts upper"
| "host_mounts (Mounted name device flags data) =
     (if name = ''whitelistfs'' then [Mounted name device flags data] else [])"
| "host_mounts (DirectoryTree msrc subdirs) = []"

fun mount_flags :: "Inode \<Rightarrow> MountSourceFlags list" where
  "mount_flags (OverlayRoot upper lower flags) = flags # mount_flags upper @ mount_flags lower"
| "mount_flags (Mounted name device flags data) = [flags]"
| "mount_flags (DirectoryTree msrc subdirs) = [msrc]"

section \<open>The mount namespace\<close>

text \<open>
  Modelled from the spec: \<^verbatim>\<open>linux.MaxSymlinkTraversals\<close>, the fixed platform maximum of
  symlink traversals in one lookup, which the spec gives as 40.
\<close>

definition MaxSymlinkTraversals :: nat where
  "MaxSymlinkTraversals = 40"

text \<open>
  Modelled from the spec: \<^verbatim>\<open>MountNamespace.FindInode\<close>, which is not part of \<^verbatim>\<open>sbox.go\<close>.
  Each path component is looked up in the current directory; a symlink consumes one unit
  of budget and resolution restarts with the link's target (from the root when the target
  is absolute, from the directory of the link otherwise); it fails with
  \<open>SymlinkLimitExceeded\<close> when a link is met with no budget left and with \<open>NotFound\<close>
  when a component is absent. The result is the entry reached and the budget left.
\<close>

fun walk :: "tree \<Rightarrow> nat \<Rightarrow> string list \<Rightarrow> string list \<Rightarrow> error + string list \<times> nat" where
  "walk t budget cur [] = Inr (cur, budget)"
| "walk t budget cur (c # rest) =
     (case t (cur @ [c]) of
        None \<Rightarrow> Inl NotFound
      | Some (Symlink target) \<Rightarrow>
          (case budget of
             0 \<Rightarrow> Inl SymlinkLimitExceeded
           | Suc budget' \<Rightarrow>
               walk t budget' (if IsAbs target then [] else cur) (path_components target @ rest))
      | Some Dir \<Rightarrow> walk t budget (cur @ [c]) rest
      | Some (RegularFile content) \<Rightarrow> walk t budget (cur @ [c]) rest)"

record MountNamespace =
  mns_root :: Inode
  mns_mounts :: "(string list \<times> Inode) list"

text \<open>
  Modelled from the spec: \<^verbatim>\<open>fs.NewMountNamespace\<close> and \<^verbatim>\<open>MountNamespace.Mount\<close>, which are
  not part of \<^verbatim>\<open>sbox.go\<close>. A namespace is one root tree and a table of the mounts attached
  after construction; creating it and attaching a mount may fail.
\<close>

definition NewMountNamespace :: "env \<Rightarrow> Inode \<Rightarrow> error + MountNamespace" where
  "NewMountNamespace e root =
     (case namespace_error e root of
        Some err \<Rightarrow> Inl err
      | None \<Rightarrow> Inr \<lparr>mns_root = root, mns_mounts = []\<rparr>)"

text \<open>
  \<^verbatim>\<open>mns.FindInode(ctx, root, root, path, maxTraversals)\<close> walks from the root of the
  namespace through the entries its root tree has when the namespace is made.
\<close>

definition FindInode :: "env \<Rightarrow> MountNamespace \<Rightarrow> string \<Rightarrow> nat \<Rightarrow> error + string list \<times> nat" where
  "FindInode e mns path maxTraversals =
     walk (lookup (initial_content e) (mns_root mns)) maxTraversals [] (path_components path)"

definition mns_Mount :: "env \<Rightarrow> MountNamespace \<Rightarrow> string list \<Rightarrow> Inode \<Rightarrow> error + MountNamespace" where
  "mns_Mount e mns dirent inode =
     (case attach_error e dirent inode of
        Some err \<Rightarrow> Inl err
      | None \<Rightarrow> Inr (mns\<lparr>mns_mounts := (dirent, inode) # mns_mounts mns\<rparr>))"

definition createMountNamespace :: "env \<Rightarrow> string list \<Rightarrow> nat \<Rightarrow> error + MountNamespace" where
  "createMountNamespace e mounts maxTraversals =
     (case createRootMount e mounts of
        Inl err \<Rightarrow> Inl (Errorf ''failed to create root mount'' err)
      | Inr rootInode \<Rightarrow>
          (case NewMountNamespace e rootInode of
             Inl err \<Rightarrow> Inl (Errorf ''failed to create root mount namespace'' err)
           | Inr mns \<Rightarrow>
               (case FindFilesystem e ''proc'' of
                  None \<Rightarrow> Inl (Panic ''could not find filesystem proc'')
                | Some proc \<Rightarrow>
                    (case fs_Mount e proc ''none'' zero_flags '''' of
                       Inl err \<Rightarrow> Inl (Errorf ''failed to create mount with source'' err)
                     | Inr inode \<Rightarrow>
                         (case FindInode e mns ''/proc'' maxTraversals of
                            Inl err \<Rightarrow> Inl (Errorf ''failed to find mount destination'' err)
                          | Inr (dirent, remaining) \<Rightarrow>
                              (case mns_Mount e mns dirent inode of
                                 Inl err \<Rightarrow> Inl (Errorf ''failed to mount at destination'' err)
                               | Inr mns' \<Rightarrow> Inr mns'))))))"

section \<open>The sandbox bootstrap\<close>

record Opt =
  HostNet :: bool
  TTY :: bool
  Mounts :: string
  Args :: "string list"

text \<open>
  The kernel object \<^verbatim>\<open>k\<close> as far as \<^verbatim>\<open>Run\<close> touches it: the root mount namespace, the
  file objects, the descriptor table and process group of the initial process, and the
  log of what has happened to the sandbox, oldest first.
\<close>

datatype event = CreatedProcess nat | ForegroundSet handle nat | Started | Exited

record Kernel =
  k_mounts :: "MountNamespace option"
  k_files :: heap
  init_fdm :: "FDMap option"
  globalInit :: "nat option"
  events :: "event list"

text \<open>
  The outcomes of the external calls of \<^verbatim>\<open>Run\<close> in one execution: an error or none for
  each set-up step, the kind of network stack (true for a \<^verbatim>\<open>hostinet.Stack\<close>), the
  open-files limit of the limit set, which host descriptors can be imported, the order in
  which \<^verbatim>\<open>range\<close> visits the descriptor map, the process group of the initial process,
  and whether the kernel starts.
\<close>

record boot =
  usage_Init_err :: "error option"
  newPlatform_err :: "error option"
  CreateMemFD_err :: "error option"
  NewMemoryFile_err :: "error option"
  PrepareVDSO_err :: "error option"
  NewTimekeeper_err :: "error option"
  netStack_res :: "bool \<Rightarrow> error + bool"
  Configure_err :: "error option"
  kernel_Init_err :: "error option"
  NewLinuxLimitSet_res :: "error + nat"
  host_importable :: "int \<Rightarrow> bool"
  range_order :: "int list"
  CreateProcess_res :: "error + nat"
  Start_err :: "error option"

definition createMemoryFile :: "boot \<Rightarrow> error option" where
  "createMemoryFile b =
     (case CreateMemFD_err b of
        Some err \<Rightarrow> Some (Errorf ''error creating memfd'' err)
      | None \<Rightarrow>
          (case NewMemoryFile_err b of
             Some err \<Rightarrow> Some (Errorf ''error creating pgalloc.MemoryFile'' err)
           | None \<Rightarrow> None))"

text \<open>
  \<^verbatim>\<open>Run\<close> from its first line to the limit set: each step returns its error, wrapped or
  not as the source does. The result is the open-files limit of \<^verbatim>\<open>ls\<close>.
\<close>

definition Run_init :: "boot \<Rightarrow> Opt \<Rightarrow> error + nat" where
  "Run_init b opt =
     (case usage_Init_err b of
        Some err \<Rightarrow> Inl (Errorf ''error setting up memory usage'' err)
      | None \<Rightarrow>
     (case newPlatform_err b of
        Some err \<Rightarrow> Inl err
      | None \<Rightarrow>
     (case createMemoryFile b of
        Some err \<Rightarrow> Inl (Errorf ''creating memory file'' err)
      | None \<Rightarrow>
     (case PrepareVDSO_err b of
        Some err \<Rightarrow> Inl (Errorf ''error creating vdso'' err)
      | None \<Rightarrow>
     (case NewTimekeeper_err b of
        Some err \<Rightarrow> Inl (Errorf ''error creating timekeeper'' err)
      | None \<Rightarrow>
     (case netStack_res b (HostNet opt) of
        Inl err \<Rightarrow> Inl err
      | Inr hostinet \<Rightarrow>
     (case (if hostinet then Configure_err b else None) of
        Some err \<Rightarrow> Inl err
      | None \<Rightarrow>
     (case kernel_Init_err b of
        Some err \<Rightarrow> Inl (Errorf ''error initializing kernel'' err)
      | None \<Rightarrow> NewLinuxLimitSet_res b))))))))"

text \<open>
  Lines 150 to 158 of \<^verbatim>\<open>Run\<close>: the root mount namespace is built only when the kernel
  has none.
\<close>

definition Run_mounts :: "env \<Rightarrow> Opt \<Rightarrow> Kernel \<Rightarrow> error option \<times> Kernel" where
  "Run_mounts e opt k =
     (case k_mounts k of
        Some mns \<Rightarrow> (None, k)
      | None \<Rightarrow>
          (let followLinks = MaxSymlinkTraversals in
           case createMountNamespace e (Split (Mounts opt) CHR '','') followLinks of
             Inl err \<Rightarrow> (Some (Errorf ''error creating mounts'' err), k)
           | Inr mns \<Rightarrow> (None, k\<lparr>k_mounts := Some mns\<rparr>)))"

text \<open>
  Modelled from the spec: \<^verbatim>\<open>k.CreateProcess(procArgs)\<close> of the process-execution engine,
  which is not part of \<^verbatim>\<open>sbox.go\<close>. On success the kernel has its initial process, in a
  new process group, and the process holds a reference on the descriptor table.
\<close>

definition CreateProcess :: "boot \<Rightarrow> FDMap \<Rightarrow> Kernel \<Rightarrow> error option \<times> Kernel" where
  "CreateProcess b fdm k =
     (case CreateProcess_res b of
        Inl err \<Rightarrow> (Some err, k)
      | Inr pg \<Rightarrow>
          (None, k\<lparr>init_fdm := Some (FDMap_IncRef fdm), globalInit := Some pg,
                    events := events k @ [CreatedProcess pg]\<rparr>))"

text \<open>
  Modelled from the spec: \<^verbatim>\<open>ttyfop.InitForegroundProcessGroup(pg)\<close>, which is not part of
  \<^verbatim>\<open>sbox.go\<close>. The foreground process group of a terminal file is set once: the call
  sets it on a file that has none yet.
\<close>

definition InitForegroundProcessGroup :: "handle \<Rightarrow> nat \<Rightarrow> heap \<Rightarrow> error + heap" where
  "InitForegroundProcessGroup f pg hp =
     (case fgProcessGroup (hp ! f) of
        Some old \<Rightarrow> Inl (Panic ''foreground process group is already set'')
      | None \<Rightarrow> Inr (hp[f := (hp ! f)\<lparr>fgProcessGroup := Some pg\<rparr>]))"

text \<open>
  \<^verbatim>\<open>k.Start()\<close> and \<^verbatim>\<open>k.WaitExited()\<close>, then the deferred \<^verbatim>\<open>ttyFile.DecRef()\<close> of \<^verbatim>\<open>Run\<close>,
  which runs on either return.
\<close>

definition Run_start :: "boot \<Rightarrow> handle list \<Rightarrow> Kernel \<Rightarrow> error option \<times> Kernel" where
  "Run_start b deferred k =
     (case Start_err b of
        Some err \<Rightarrow> (Some err, k\<lparr>k_files := fold DecRef deferred (k_files k)\<rparr>)
      | None \<Rightarrow>
          (None, k\<lparr>k_files := fold DecRef deferred (k_files k),
                    events := events k @ [Started, Exited]\<rparr>))"

text \<open>Lines 159 to 181 of \<^verbatim>\<open>Run\<close>: the initial process, the terminal, the start.\<close>

definition Run_process :: "boot \<Rightarrow> Opt \<Rightarrow> FDMap \<Rightarrow> Kernel \<Rightarrow> error option \<times> Kernel" where
  "Run_process b opt fdm k =
     (case CreateProcess b fdm k of
        (Some err, k1) \<Rightarrow> (Some (Errorf ''failed to create init process'' err), k1)
      | (None, k1) \<Rightarrow>
          (if TTY opt then
             (case GetFile fdm 0 (k_files k1) of
                (None, hp) \<Rightarrow> (Some (Panic ''nil pointer dereference''), k1)
              | (Some ttyFile, hp) \<Rightarrow>
                  (if \<not> isTTY (hp ! ttyFile)
                   then (Some (Panic ''interface conversion''), k1\<lparr>k_files := DecRef ttyFile hp\<rparr>)
                   else
                     (case globalInit k1 of
                        None \<Rightarrow>
                          (Some (Panic ''nil pointer dereference''),
                           k1\<lparr>k_files := DecRef ttyFile hp\<rparr>)
                      | Some pg \<Rightarrow>
                          (case InitForegroundProcessGroup ttyFile pg hp of
                             Inl err \<Rightarrow> (Some err, k1\<lparr>k_files := DecRef ttyFile hp\<rparr>)
                           | Inr hp' \<Rightarrow>
                               Run_start b [ttyFile]
                                 (k1\<lparr>k_files := hp',
                                      events := events k1 @ [ForegroundSet ttyFile pg]\<rparr>)))))
           else Run_start b [] k1))"

text \<open>
  \<^verbatim>\<open>Run(o)\<close> on a new kernel. The model returns the kernel with the error, so that what
  happened to the sandbox can be read off.
\<close>

definition new_kernel :: Kernel where
  "new_kernel = \<lparr>k_mounts = None, k_files = [], init_fdm = None, globalInit = None, events = []\<rparr>"

definition Run :: "boot \<Rightarrow> env \<Rightarrow> Opt \<Rightarrow> error option \<times> Kernel" where
  "Run b e opt =
     (case Run_init b opt of
        Inl err \<Rightarrow> (Some err, new_kernel)
      | Inr ls \<Rightarrow>
          (case createFDMap (host_importable b) (0, 0) ls (TTY opt) [0, 1, 2] (range_order b)
                  (k_files new_kernel) of
             (Inl err, hp) \<Rightarrow> (Some (Errorf ''error importing fds'' err), new_kernel\<lparr>k_files := hp\<rparr>)
           | (Inr fdm, hp) \<Rightarrow>
               (case Run_mounts e opt (new_kernel\<lparr>k_files := hp\<rparr>) of
                  (Some err, k1) \<Rightarrow> (Some err, k1)
                | (None, k1) \<Rightarrow> Run_process b opt fdm k1)))"

section \<open>The per-entry host tree\<close>

text \<open>
  What one iteration of the loop mounts for the entry \<open>m\<close>: the whitelist filesystem with
  an empty device, the flags \<^verbatim>\<open>mf\<close> and the data \<^verbatim>\<open>"root=" + m\<close>, where a relative \<open>m\<close> is
  joined to the working directory first.
\<close>

definition entry_tree :: "env \<Rightarrow> string \<Rightarrow> string \<Rightarrow> Inode" where
  "entry_tree e wd m =
     Mounted ''whitelistfs'' '''' \<lparr>ReadOnly = False\<rparr>
       (''root='' @ (if \<not> IsAbs m then Join e wd m else m))"

section \<open>A concrete host\<close>

text \<open>
  A small host for running the model: the directory \<^verbatim>\<open>/a\<close> holds \<^verbatim>\<open>x\<close> and \<^verbatim>\<open>y\<close>, \<^verbatim>\<open>/b\<close>
  holds another \<^verbatim>\<open>x\<close>, in \<^verbatim>\<open>/l\<close> the name \<^verbatim>\<open>proc\<close> is the first of two symlinks that
  lead to a directory, and in \<^verbatim>\<open>/c\<close> the name \<^verbatim>\<open>proc\<close> is a symlink to itself. No external call fails, host descriptors 0 to 19 can be imported,
  and \<^verbatim>\<open>range\<close> visits the descriptor map in the order 1, 0, 2.
\<close>

definition demo_importable :: "int \<Rightarrow> bool" where
  "demo_importable fd \<longleftrightarrow> 0 \<le> fd \<and> fd < 20"

definition demo_backing :: "string \<Rightarrow> string \<Rightarrow> tree" where
  "demo_backing name data p =
     (if p = [] then Some Dir
      else if name = ''whitelistfs'' \<and> data = ''root=/a'' then
        (if p = [''x''] then Some (RegularFile ''base'')
         else if p = [''y''] then Some (RegularFile ''only in a'')
         else None)
      else if name = ''whitelistfs'' \<and> data = ''root=/b'' then
        (if p = [''x''] then Some (RegularFile ''override'') else None)
      else if name = ''whitelistfs'' \<and> data = ''root=/l'' then
        (if p = [''proc''] then Some (Symlink ''/p1'')
         else if p = [''p1''] then Some (Symlink ''p2'')
         else if p = [''p2''] then Some Dir
         else None)
      else if name = ''whitelistfs'' \<and> data = ''root=/c'' then
        (if p = [''proc''] then Some (Symlink ''/proc'') else None)
      else None)"

definition demo_Join :: "string \<Rightarrow> string \<Rightarrow> string" where
  "demo_Join wd m = (if m = [] then wd else wd @ ''/'' @ m)"

definition demo_registered :: "string \<Rightarrow> bool" where
  "demo_registered name \<longleftrightarrow>
     name = ''whitelistfs'' \<or> name = ''tmpfs'' \<or> name = ''proc'' \<or> name = ''dev'' \<or>
     name = ''sys'' \<or> name = ''tty''"

definition demo_env :: env where
  "demo_env =
     \<lparr>Getwd = Inr ''/work'', registered = demo_registered,
      mount_error = (\<lambda>name device data. None), tree_error = (\<lambda>subdirs. None),
      overlay_error = (\<lambda>upper lower. None), Join = demo_Join, backing = demo_backing,
      namespace_error = (\<lambda>root. None), attach_error = (\<lambda>dirent inode. None)\<rparr>"

definition demo_boot :: boot where
  "demo_boot =
     \<lparr>usage_Init_err = None, newPlatform_err = None, CreateMemFD_err = None,
      NewMemoryFile_err = None, PrepareVDSO_err = None, NewTimekeeper_err = None,
      netStack_res = (\<lambda>hostNet. Inr hostNet), Configure_err = None, kernel_Init_err = None,
      NewLinuxLimitSet_res = Inr 1024, host_importable = demo_importable,
      range_order = [1, 0, 2], CreateProcess_res = Inr 1, Start_err = None\<rparr>"

definition demo_opt :: Opt where
  "demo_opt = \<lparr>HostNet = False, TTY = True, Mounts = ''/a,/b'', Args = [''/bin/sh'']\<rparr>"

definition other_opt :: Opt where
  "other_opt = \<lparr>HostNet = False, TTY = True, Mounts = ''/l'', Args = [''/bin/sh'']\<rparr>"

definition cycle_opt :: Opt where
  "cycle_opt = \<lparr>HostNet = False, TTY = True, Mounts = ''/c'', Args = [''/bin/sh'']\<rparr>"

definition empty_opt :: Opt where
  "empty_opt = \<lparr>HostNet = False, TTY = False, Mounts = '''', Args = [''/bin/sh'']\<rparr>"

text \<open>The roots that root assembly returns on this host for the mounts \<^verbatim>\<open>/l\<close> and \<^verbatim>\<open>/c\<close>.\<close>

definition link_root :: Inode where
  "link_root =
     OverlayRoot (Mounted ''tmpfs'' ''upper'' zero_flags [])
       (OverlayRoot (Mounted ''whitelistfs'' [] \<lparr>ReadOnly = False\<rparr> ''root=/l'')
          (DirectoryTree zero_flags [''/dev'', ''/sys'', ''/proc'', ''/tmp'']) zero_flags)
       zero_flags"

definition cycle_root :: Inode where
  "cycle_root =
     OverlayRoot (Mounted ''tmpfs'' ''upper'' zero_flags [])
       (OverlayRoot (Mounted ''whitelistfs'' [] \<lparr>ReadOnly = False\<rparr> ''root=/c'')
          (DirectoryTree zero_flags [''/dev'', ''/sys'', ''/proc'', ''/tmp'']) zero_flags)
       zero_flags"

section \<open>The fold of the spec\<close>

text \<open>
  The spec's words for steps 2, 4 and 5 of root assembly, to compare the code with: the
  tree of the first entry is the initial accumulator and each later tree is layered as
  the upper tree over the accumulator; the synthetic subtree goes under the accumulator;
  the temporary-storage tree goes over the result.
\<close>

definition spec_accumulator :: "env \<Rightarrow> string \<Rightarrow> string \<Rightarrow> string list \<Rightarrow> Inode" where
  "spec_accumulator e wd m0 ms =
     foldl (\<lambda>acc m. OverlayRoot (entry_tree e wd m) acc zero_flags) (entry_tree e wd m0) ms"

definition spec_root :: "Inode \<Rightarrow> Inode" where
  "spec_root acc =
     OverlayRoot (Mounted ''tmpfs'' ''upper'' zero_flags '''')
       (OverlayRoot acc (DirectoryTree zero_flags [''/dev'', ''/sys'', ''/proc'', ''/tmp''])
          zero_flags)
       zero_flags"

section \<open>Properties of the descriptor importer\<close>

lemma iteration_order_cases:
  assumes "iteration_order order"
  shows "order \<in> {[0, 1, 2], [0, 2, 1], [1, 0, 2], [1, 2, 0], [2, 0, 1], [2, 1, 0]}"
proof -
  from assms have d: "distinct order" and s: "set order = {0, 1, 2}"
    by (simp_all add: iteration_order_def)
  have "length order = card (set order)"
    using d by (simp add: distinct_card)
  also have "\<dots> = 3"
    using s by simp
  finally obtain a b c where o: "order = [a, b, c]"
    by (auto simp: numeral_3_eq_3 length_Suc_conv)
  have "a \<in> {0, 1, 2}" "b \<in> {0, 1, 2}" "c \<in> {0, 1, 2}"
    using s o by auto
  moreover have "a \<noteq> b" "a \<noteq> c" "b \<noteq> c"
    using d o by auto
  ultimately show ?thesis
    unfolding o by auto
qed

lemma iteration_order_102: "iteration_order [1, 0, 2]"
  by (auto simp: iteration_order_def)

lemma iteration_order_201: "iteration_order [2, 0, 1]"
  by (auto simp: iteration_order_def)

lemma length_IncRef [simp]: "length (IncRef h hp) = length hp"
  by (simp add: IncRef_def)

lemma length_DecRef [simp]: "length (DecRef h hp) = length hp"
  by (simp add: DecRef_def)

lemmas fd_defs =
  createFDMap_def range_entries_def List.map_filter_def stdio_file_def ImportFile_def
  NewFDAt_def NewFDMap_def fd_slot_def FDMap_DecRef_def FDMap_IncRef_def
  FileOwnerFromContext_def

lemma createFDMap_console:
  assumes "iteration_order order" "ok ([h0, h1, h2] ! nat (hd order))" "2 < l"
  shows "\<exists>fdm. createFDMap ok ctx l True [h0, h1, h2] order hp =
      (Inr fdm, hp @ [\<lparr>host_fd = [h0, h1, h2] ! nat (hd order), file_owner = ctx, isTTY = True,
                        refs = 3, fgProcessGroup = None\<rparr>]) \<and>
      fd_slot fdm 0 = Some (length hp) \<and> fd_slot fdm 1 = Some (length hp) \<and>
      fd_slot fdm 2 = Some (length hp)"
  using iteration_order_cases[OF assms(1)] assms(2-)
  by (auto simp: fd_defs IncRef_def DecRef_def)

lemma createFDMap_regular_files:
  assumes "iteration_order order" "ok h0" "ok h1" "ok h2" "2 < l"
  shows "\<exists>fdm hp' f0 f1 f2. createFDMap ok ctx l False [h0, h1, h2] order hp = (Inr fdm, hp') \<and>
      fd_slot fdm 0 = Some f0 \<and> fd_slot fdm 1 = Some f1 \<and> fd_slot fdm 2 = Some f2 \<and>
      f0 \<noteq> f1 \<and> f0 \<noteq> f2 \<and> f1 \<noteq> f2 \<and>
      take (length hp) hp' = hp \<and> length hp' = length hp + 3 \<and>
      length hp \<le> f0 \<and> f0 < length hp' \<and> length hp \<le> f1 \<and> f1 < length hp' \<and>
      length hp \<le> f2 \<and> f2 < length hp' \<and>
      hp' ! f0 = \<lparr>host_fd = h0, file_owner = ctx, isTTY = False, refs = 1,
                   fgProcessGroup = None\<rparr> \<and>
      hp' ! f1 = \<lparr>host_fd = h1, file_owner = ctx, isTTY = False, refs = 1,
                   fgProcessGroup = None\<rparr> \<and>
      hp' ! f2 = \<lparr>host_fd = h2, file_owner = ctx, isTTY = False, refs = 1,
                   fgProcessGroup = None\<rparr>"
  using iteration_order_cases[OF assms(1)] assms(2-)
  by (auto simp: fd_defs IncRef_def DecRef_def nth_append)

text \<open>
  Claim C1. Whatever order the map iteration takes, a call of \<^verbatim>\<open>createFDMap\<close> with three
  importable host descriptors (and an open-files limit above 2) returns a descriptor
  table whose slots 0, 1 and 2 hold handles of file objects that the call has added to
  the heap, the objects that were there before being left as they were. With terminal
  mode enabled the three slots hold one and the same handle, of the one object added: a
  terminal file, imported from the descriptor of the slot visited first, with three
  references. With terminal mode disabled they hold three pairwise distinct handles, of
  the three objects added: for each slot a regular file imported from that slot's host
  descriptor, with one reference.
\<close>

theorem C1_stdio_aliasing:
  assumes "iteration_order order" "ok h0" "ok h1" "ok h2" "2 < l"
  shows "\<exists>fdm hp' f0 f1 f2.
      createFDMap ok ctx l console [h0, h1, h2] order hp = (Inr fdm, hp') \<and>
      fd_slot fdm 0 = Some f0 \<and> fd_slot fdm 1 = Some f1 \<and> fd_slot fdm 2 = Some f2 \<and>
      take (length hp) hp' = hp \<and>
      length hp \<le> f0 \<and> f0 < length hp' \<and> length hp \<le> f1 \<and> f1 < length hp' \<and>
      length hp \<le> f2 \<and> f2 < length hp' \<and>
      (if console
       then f0 = f1 \<and> f1 = f2 \<and> length hp' = length hp + 1 \<and>
            hp' ! f0 = \<lparr>host_fd = [h0, h1, h2] ! nat (hd order), file_owner = ctx,
                         isTTY = True, refs = 3, fgProcessGroup = None\<rparr>
       else f0 \<noteq> f1 \<and> f0 \<noteq> f2 \<and> f1 \<noteq> f2 \<and> length hp' = length hp + 3 \<and>
            hp' ! f0 = \<lparr>host_fd = h0, file_owner = ctx, isTTY = False, refs = 1,
                         fgProcessGroup = None\<rparr> \<and>
            hp' ! f1 = \<lparr>host_fd = h1, file_owner = ctx, isTTY = False, refs = 1,
                         fgProcessGroup = None\<rparr> \<and>
            hp' ! f2 = \<lparr>host_fd = h2, file_owner = ctx, isTTY = False, refs = 1,
                         fgProcessGroup = None\<rparr>)"
proof (cases console)
  case True
  have "ok ([h0, h1, h2] ! nat (hd order))"
    using iteration_order_cases[OF assms(1)] assms(2-4) by auto
  with assms(1,5) createFDMap_console[where order = order and ok = ok and ?h0.0 = h0
      and ?h1.0 = h1 and ?h2.0 = h2 and l = l and ctx = ctx and hp = hp]
  obtain fdm where "createFDMap ok ctx l True [h0, h1, h2] order hp =
      (Inr fdm, hp @ [\<lparr>host_fd = [h0, h1, h2] ! nat (hd order), file_owner = ctx, isTTY = True,
                        refs = 3, fgProcessGroup = None\<rparr>])"
    and "fd_slot fdm 0 = Some (length hp)" "fd_slot fdm 1 = Some (length hp)"
      "fd_slot fdm 2 = Some (length hp)"
    by blast
  with True show ?thesis
    by (rule_tac x = fdm in exI,
        rule_tac x = "hp @ [\<lparr>host_fd = [h0, h1, h2] ! nat (hd order), file_owner = ctx,
          isTTY = True, refs = 3, fgProcessGroup = None\<rparr>]" in exI,
        rule_tac x = "length hp" in exI, rule_tac x = "length hp" in exI,
        rule_tac x = "length hp" in exI)
       simp
next
  case False
  from createFDMap_regular_files[OF assms, of ctx hp]
  obtain fdm hp' f0 f1 f2 where "createFDMap ok ctx l False [h0, h1, h2] order hp = (Inr fdm, hp') \<and>
      fd_slot fdm 0 = Some f0 \<and> fd_slot fdm 1 = Some f1 \<and> fd_slot fdm 2 = Some f2 \<and>
      f0 \<noteq> f1 \<and> f0 \<noteq> f2 \<and> f1 \<noteq> f2 \<and>
      take (length hp) hp' = hp \<and> length hp' = length hp + 3 \<and>
      length hp \<le> f0 \<and> f0 < length hp' \<and> length hp \<le> f1 \<and> f1 < length hp' \<and>
      length hp \<le> f2 \<and> f2 < length hp' \<and>
      hp' ! f0 = \<lparr>host_fd = h0, file_owner = ctx, isTTY = False, refs = 1,
                   fgProcessGroup = None\<rparr> \<and>
      hp' ! f1 = \<lparr>host_fd = h1, file_owner = ctx, isTTY = False, refs = 1,
                   fgProcessGroup = None\<rparr> \<and>
      hp' ! f2 = \<lparr>host_fd = h2, file_owner = ctx, isTTY = False, refs = 1,
                   fgProcessGroup = None\<rparr>"
    by blast
  with False show ?thesis
    by (rule_tac x = fdm in exI, rule_tac x = hp' in exI, rule_tac x = f0 in exI,
        rule_tac x = f1 in exI, rule_tac x = f2 in exI)
       simp
qed

theorem C1_stdio_aliasing_witness:
  "iteration_order [2, 0, 1] \<and> demo_importable 10 \<and> demo_importable 11 \<and>
   demo_importable 12 \<and> (2::nat) < 1024 \<and>
   (\<exists>fdm hp' f.
      createFDMap demo_importable (0, 0) 1024 True [10, 11, 12] [2, 0, 1] [] = (Inr fdm, hp') \<and>
      fd_slot fdm 0 = Some f \<and> fd_slot fdm 1 = Some f \<and> fd_slot fdm 2 = Some f \<and>
      f < length hp' \<and> length hp' = 1 \<and>
      hp' ! f = \<lparr>host_fd = 12, file_owner = (0, 0), isTTY = True, refs = 3,
                  fgProcessGroup = None\<rparr>) \<and>
   (\<exists>fdm hp' f0 f1 f2.
      createFDMap demo_importable (0, 0) 1024 False [10, 11, 12] [2, 0, 1] [] = (Inr fdm, hp') \<and>
      fd_slot fdm 0 = Some f0 \<and> fd_slot fdm 1 = Some f1 \<and> fd_slot fdm 2 = Some f2 \<and>
      f0 \<noteq> f1 \<and> f0 \<noteq> f2 \<and> f1 \<noteq> f2 \<and>
      f0 < length hp' \<and> f1 < length hp' \<and> f2 < length hp' \<and> length hp' = 3 \<and>
      host_fd (hp' ! f0) = 10 \<and> host_fd (hp' ! f1) = 11 \<and> host_fd (hp' ! f2) = 12 \<and>
      \<not> isTTY (hp' ! f0) \<and> \<not> isTTY (hp' ! f1) \<and> \<not> isTTY (hp' ! f2))"
proof -
  have h: "iteration_order [2, 0, 1]" "demo_importable 10" "demo_importable 11"
    "demo_importable 12" "(2::nat) < 1024"
    by (simp_all add: iteration_order_201 demo_importable_def)
  from C1_stdio_aliasing[OF h, of "(0, 0)" True "[]"]
  have t: "\<exists>fdm hp' f.
      createFDMap demo_importable (0, 0) 1024 True [10, 11, 12] [2, 0, 1] [] = (Inr fdm, hp') \<and>
      fd_slot fdm 0 = Some f \<and> fd_slot fdm 1 = Some f \<and> fd_slot fdm 2 = Some f \<and>
      f < length hp' \<and> length hp' = 1 \<and>
      hp' ! f = \<lparr>host_fd = 12, file_owner = (0, 0), isTTY = True, refs = 3,
                  fgProcessGroup = None\<rparr>"
    by simp
  from C1_stdio_aliasing[OF h, of "(0, 0)" False "[]"]
  have r: "\<exists>fdm hp' f0 f1 f2.
      createFDMap demo_importable (0, 0) 1024 False [10, 11, 12] [2, 0, 1] [] = (Inr fdm, hp') \<and>
      fd_slot fdm 0 = Some f0 \<and> fd_slot fdm 1 = Some f1 \<and> fd_slot fdm 2 = Some f2 \<and>
      f0 \<noteq> f1 \<and> f0 \<noteq> f2 \<and> f1 \<noteq> f2 \<and>
      f0 < length hp' \<and> f1 < length hp' \<and> f2 < length hp' \<and> length hp' = 3 \<and>
      host_fd (hp' ! f0) = 10 \<and> host_fd (hp' ! f1) = 11 \<and> host_fd (hp' ! f2) = 12 \<and>
      \<not> isTTY (hp' ! f0) \<and> \<not> isTTY (hp' ! f1) \<and> \<not> isTTY (hp' ! f2)"
    by simp (metis File.select_convs(1,3))
  from h t r show ?thesis by blast
qed

text \<open>
  Claim C2, as stated, fails: when the map iteration visits slot 1 first, the one terminal
  file object is imported from the host descriptor of slot 1 (here 11), not from that of
  slot 0 (here 10), and slot 0 is bound to that object.
\<close>

theorem C2_terminal_source_counterexample:
  "iteration_order [1, 0, 2] \<and>
   fst (createFDMap demo_importable (0, 0) 1024 True [10, 11, 12] [1, 0, 2] []) =
     Inr \<lparr>fd_table = [(2, 0), (0, 0), (1, 0)], fdm_refs = 1\<rparr> \<and>
   map host_fd (snd (createFDMap demo_importable (0, 0) 1024 True [10, 11, 12] [1, 0, 2] [])) =
     [11]"
  by (simp add: iteration_order_102 fd_defs IncRef_def DecRef_def demo_importable_def)

text \<open>
  Claim C2, amended. With terminal mode enabled \<^verbatim>\<open>createFDMap\<close> imports exactly one file
  object, as a terminal file, from the host descriptor of the slot that the map iteration
  visits first (the descriptor of slot 0 when the iteration starts there); slots 0, 1 and
  2 are all bound to that one object, and no other host descriptor is imported.
\<close>

theorem C2_terminal_source:
  assumes "iteration_order order" "ok ([h0, h1, h2] ! nat (hd order))" "2 < l"
  shows "\<exists>fdm. createFDMap ok ctx l True [h0, h1, h2] order hp =
      (Inr fdm, hp @ [\<lparr>host_fd = [h0, h1, h2] ! nat (hd order), file_owner = ctx, isTTY = True,
                        refs = 3, fgProcessGroup = None\<rparr>]) \<and>
      fd_slot fdm 0 = Some (length hp) \<and> fd_slot fdm 1 = Some (length hp) \<and>
      fd_slot fdm 2 = Some (length hp)"
  using assms by (rule createFDMap_console)

theorem C2_terminal_source_witness:
  "iteration_order [1, 0, 2] \<and> demo_importable ([10, 11, 12] ! nat (hd [1, 0, 2])) \<and>
   (2::nat) < 1024 \<and>
   (\<exists>fdm. createFDMap demo_importable (0, 0) 1024 True [10, 11, 12] [1, 0, 2] [] =
      (Inr fdm, [\<lparr>host_fd = 11, file_owner = (0, 0), isTTY = True, refs = 3,
                  fgProcessGroup = None\<rparr>]) \<and>
      fd_slot fdm 0 = Some 0 \<and> fd_slot fdm 1 = Some 0 \<and> fd_slot fdm 2 = Some 0)"
proof -
  have h: "iteration_order [1, 0, 2]" "demo_importable ([10, 11, 12] ! nat (hd [1, 0, 2]))"
    "(2::nat) < 1024"
    by (simp_all add: iteration_order_102 demo_importable_def)
  show ?thesis
    using h C2_terminal_source[where order = "[1, 0, 2]" and ok = demo_importable and ?h0.0 = 10
        and ?h1.0 = 11 and ?h2.0 = 12 and l = 1024 and ctx = "(0, 0)" and hp = "[]"]
    by simp
qed

section \<open>Properties of root assembly\<close>

lemma mount_loop_tail:
  "i \<noteq> 0 \<Longrightarrow>
   mount_loop e wd ''whitelistfs'' \<lparr>ReadOnly = False\<rparr> i ms (Some a, Some a) = Inr res \<Longrightarrow>
   res = (Some (foldl (\<lambda>acc m. OverlayRoot (entry_tree e wd m) acc zero_flags) a ms),
          Some (foldl (\<lambda>acc m. OverlayRoot (entry_tree e wd m) acc zero_flags) a ms))"
proof (induction ms arbitrary: a i)
  case Nil
  then show ?case by simp
next
  case (Cons m ms)
  from Cons.prems show ?case
    by (auto simp: Let_def fs_Mount_def NewOverlayRoot_def entry_tree_def
        split: option.splits sum.splits dest!: Cons.IH[rotated])
qed

lemma mount_loop_start:
  assumes "mount_loop e wd ''whitelistfs'' \<lparr>ReadOnly = False\<rparr> 0 (m0 # ms) (None, None) = Inr res"
  shows "res = (Some (spec_accumulator e wd m0 ms), Some (spec_accumulator e wd m0 ms))"
  using assms
  by (auto simp: Let_def fs_Mount_def entry_tree_def spec_accumulator_def
      split: option.splits sum.splits dest!: mount_loop_tail[rotated])

lemma createRootMount_Inr:
  assumes "createRootMount e mounts = Inr root"
  shows "\<exists>wd m0 ms. Getwd e = Inr wd \<and> mounts = m0 # ms \<and>
     mount_loop e wd ''whitelistfs'' \<lparr>ReadOnly = False\<rparr> 0 mounts (None, None) =
       Inr (Some (spec_accumulator e wd m0 ms), Some (spec_accumulator e wd m0 ms)) \<and>
     root = spec_root (spec_accumulator e wd m0 ms)"
proof (cases mounts)
  case Nil
  with assms show ?thesis
    by (auto simp: createRootMount_def FindFilesystem_def addSubmountOverlay_def
        MakeDirectoryTree_def NewOverlayRoot_def split: if_splits option.splits sum.splits)
next
  case (Cons m0 ms)
  with assms show ?thesis
    by (auto simp: createRootMount_def FindFilesystem_def addSubmountOverlay_def
        MakeDirectoryTree_def NewOverlayRoot_def fs_Mount_def spec_root_def submounts_def
        simp del: mount_loop.simps
        split: if_splits option.splits sum.splits dest!: mount_loop_start)
qed

text \<open>
  Root assembly returns a root whenever the mount list is not empty and no external call
  fails: the working directory is known, both filesystems are registered, and no mount,
  subtree or composition is refused.
\<close>

lemma mount_loop_tail_succeeds:
  assumes "\<forall>name device data. mount_error e name device data = None"
    "\<forall>upper lower. overlay_error e upper lower = None"
  shows "i \<noteq> 0 \<Longrightarrow>
   mount_loop e wd ''whitelistfs'' \<lparr>ReadOnly = False\<rparr> i ms (Some a, Some a) =
     Inr (Some (foldl (\<lambda>acc m. OverlayRoot (entry_tree e wd m) acc zero_flags) a ms),
          Some (foldl (\<lambda>acc m. OverlayRoot (entry_tree e wd m) acc zero_flags) a ms))"
  using assms
  by (induction ms arbitrary: a i)
     (simp_all add: Let_def fs_Mount_def NewOverlayRoot_def entry_tree_def)

lemma createRootMount_succeeds:
  assumes "Getwd e = Inr wd" "registered e ''whitelistfs''" "registered e ''tmpfs''"
    "\<forall>name device data. mount_error e name device data = None"
    "\<forall>subdirs. tree_error e subdirs = None"
    "\<forall>upper lower. overlay_error e upper lower = None"
  shows "createRootMount e (m0 # ms) = Inr (spec_root (spec_accumulator e wd m0 ms))"
proof -
  have "mount_loop e wd ''whitelistfs'' \<lparr>ReadOnly = False\<rparr> 0 (m0 # ms) (None, None) =
      Inr (Some (spec_accumulator e wd m0 ms), Some (spec_accumulator e wd m0 ms))"
    using assms(4) mount_loop_tail_succeeds[OF assms(4,6), of "Suc 0" wd ms "entry_tree e wd m0"]
    by (cases "IsAbs m0") (simp_all add: Let_def fs_Mount_def spec_accumulator_def entry_tree_def)
  with assms show ?thesis
    by (simp add: createRootMount_def FindFilesystem_def addSubmountOverlay_def
        MakeDirectoryTree_def NewOverlayRoot_def fs_Mount_def spec_root_def submounts_def
        del: mount_loop.simps)
qed

lemma lookup_entry_tree [simp]: "lookup st (entry_tree e wd m) p = st (entry_tree e wd m) p"
  by (simp add: entry_tree_def)

lemma lookup_accumulator:
  assumes "i < length (m0 # ms)" "st (entry_tree e wd ((m0 # ms) ! i)) p = Some v"
    "\<forall>j. i < j \<and> j < length (m0 # ms) \<longrightarrow> st (entry_tree e wd ((m0 # ms) ! j)) p = None"
  shows "lookup st (spec_accumulator e wd m0 ms) p = Some v"
  using assms
proof (induction ms arbitrary: i rule: rev_induct)
  case Nil
  then show ?case by (simp add: spec_accumulator_def)
next
  case (snoc m ms)
  show ?case
  proof (cases "i = length (m0 # ms)")
    case True
    with snoc.prems(2) have "st (entry_tree e wd m) p = Some v"
      by (simp add: nth_append)
    then show ?thesis by (simp add: spec_accumulator_def)
  next
    case False
    with snoc.prems(1) have i: "i < length (m0 # ms)" by simp
    have last: "st (entry_tree e wd m) p = None"
      using snoc.prems(3)[rule_format, of "length (m0 # ms)"] i by (simp add: nth_append)
    have here: "st (entry_tree e wd ((m0 # ms) ! i)) p = Some v"
      using snoc.prems(2) i by (simp add: nth_append nth_Cons split: nat.splits)
    have above: "\<forall>j. i < j \<and> j < length (m0 # ms) \<longrightarrow> st (entry_tree e wd ((m0 # ms) ! j)) p = None"
    proof (intro allI impI)
      fix j assume j: "i < j \<and> j < length (m0 # ms)"
      then have "st (entry_tree e wd ((m0 # ms @ [m]) ! j)) p = None"
        using snoc.prems(3)[rule_format, of j] by simp
      moreover have "(m0 # ms @ [m]) ! j = (m0 # ms) ! j"
        using j by (simp add: nth_append nth_Cons split: nat.splits)
      ultimately show "st (entry_tree e wd ((m0 # ms) ! j)) p = None" by simp
    qed
    from snoc.IH[OF i here above] last show ?thesis
      by (simp add: spec_accumulator_def)
  qed
qed

lemma lookup_accumulator_none:
  assumes "\<forall>j. j < length (m0 # ms) \<longrightarrow> st (entry_tree e wd ((m0 # ms) ! j)) p = None"
  shows "lookup st (spec_accumulator e wd m0 ms) p = None"
  using assms
proof (induction ms rule: rev_induct)
  case Nil
  then show ?case by (simp add: spec_accumulator_def)
next
  case (snoc m ms)
  have last: "st (entry_tree e wd m) p = None"
    using snoc.prems[rule_format, of "length (m0 # ms)"] by (simp add: nth_append)
  have "\<forall>j. j < length (m0 # ms) \<longrightarrow> st (entry_tree e wd ((m0 # ms) ! j)) p = None"
  proof (intro allI impI)
    fix j assume j: "j < length (m0 # ms)"
    then have "st (entry_tree e wd ((m0 # ms @ [m]) ! j)) p = None"
      using snoc.prems[rule_format, of j] by simp
    moreover have "(m0 # ms @ [m]) ! j = (m0 # ms) ! j"
      using j by (simp add: nth_append nth_Cons split: nat.splits)
    ultimately show "st (entry_tree e wd ((m0 # ms) ! j)) p = None" by simp
  qed
  from snoc.IH[OF this] last show ?case
    by (simp add: spec_accumulator_def)
qed

lemma host_mounts_accumulator:
  "host_mounts (spec_accumulator e wd m0 ms) = map (entry_tree e wd) (m0 # ms)"
  by (induction ms rule: rev_induct) (simp_all add: spec_accumulator_def entry_tree_def)

lemma mount_flags_accumulator:
  "f \<in> set (mount_flags (spec_accumulator e wd m0 ms)) \<Longrightarrow> \<not> ReadOnly f"
  by (induction ms rule: rev_induct) (auto simp: spec_accumulator_def entry_tree_def zero_flags_def)

lemma write_target_spec_root [simp]:
  "write_target (spec_root acc) = Mounted ''tmpfs'' ''upper'' zero_flags ''''"
  by (simp add: spec_root_def)

lemma path_components_submounts:
  "path_components ''/dev'' = [''dev'']" "path_components ''/sys'' = [''sys'']"
  "path_components ''/proc'' = [''proc'']" "path_components ''/tmp'' = [''tmp'']"
  by (simp_all add: path_components_def)

lemma synthetic_content:
  "initial_content e (DirectoryTree zero_flags [''/dev'', ''/sys'', ''/proc'', ''/tmp'']) p =
     (if p \<in> {[], [''dev''], [''sys''], [''proc''], [''tmp'']} then Some Dir else None)"
proof (cases p)
  case Nil
  then show ?thesis by simp
next
  case (Cons c cs)
  then show ?thesis
    by (cases cs) (auto simp: path_components_submounts)
qed

lemma tmpfs_content:
  "initial_content e (Mounted ''tmpfs'' device flags data) p = (if p = [] then Some Dir else None)"
  by simp

lemma lookup_spec_root:
  "p \<noteq> [] \<Longrightarrow> lookup (initial_content e) (spec_root acc) p =
     (case lookup (initial_content e) acc p of
        Some v \<Rightarrow> Some v
      | None \<Rightarrow> if p \<in> {[''dev''], [''sys''], [''proc''], [''tmp'']} then Some Dir else None)"
  unfolding spec_root_def lookup.simps synthetic_content tmpfs_content
  by (simp split: option.splits)

text \<open>
  Claim C3. For a non-empty mount list, a root that \<^verbatim>\<open>createRootMount\<close> returns is the
  spec's fold: the tree of the first entry is the accumulator, every later tree is
  composed as the upper tree over the accumulator (the lower one), and the result sits
  over the synthetic subtree and under the temporary-storage tree. A path inside the
  mounts that entry \<open>i\<close> provides and no later entry provides resolves in the assembled
  root to the content of entry \<open>i\<close>: the last-listed provider wins.
\<close>

theorem C3_last_listed_wins:
  assumes "createRootMount e (m0 # ms) = Inr root" "Getwd e = Inr wd"
    and "i < length (m0 # ms)" "p \<noteq> []"
    and "initial_content e (entry_tree e wd ((m0 # ms) ! i)) p = Some v"
    and "\<forall>j. i < j \<and> j < length (m0 # ms) \<longrightarrow>
           initial_content e (entry_tree e wd ((m0 # ms) ! j)) p = None"
  shows "root = spec_root (spec_accumulator e wd m0 ms) \<and>
         lookup (initial_content e) root p = Some v"
proof -
  from createRootMount_Inr[OF assms(1)] assms(2)
  have root: "root = spec_root (spec_accumulator e wd m0 ms)" by auto
  have "lookup (initial_content e) (spec_accumulator e wd m0 ms) p = Some v"
    using assms(3,5,6) by (rule lookup_accumulator)
  with root assms(4) show ?thesis
    by (simp add: lookup_spec_root)
qed

lemma demo_root_ab:
  "createRootMount demo_env [''/a'', ''/b''] =
     Inr (spec_root (spec_accumulator demo_env ''/work'' ''/a'' [''/b'']))"
  by (simp add: createRootMount_def demo_env_def FindFilesystem_def demo_registered_def
      fs_Mount_def NewOverlayRoot_def addSubmountOverlay_def MakeDirectoryTree_def
      spec_root_def spec_accumulator_def entry_tree_def submounts_def zero_flags_def Let_def)

theorem C3_last_listed_wins_witness:
  "createRootMount demo_env [''/a'', ''/b''] =
     Inr (spec_root (spec_accumulator demo_env ''/work'' ''/a'' [''/b''])) \<and>
   Getwd demo_env = Inr ''/work'' \<and>
   initial_content demo_env (entry_tree demo_env ''/work'' ''/a'') [''x''] =
     Some (RegularFile ''base'') \<and>
   initial_content demo_env (entry_tree demo_env ''/work'' ''/b'') [''x''] =
     Some (RegularFile ''override'') \<and>
   lookup (initial_content demo_env)
     (spec_root (spec_accumulator demo_env ''/work'' ''/a'' [''/b''])) [''x''] =
     Some (RegularFile ''override'')"
proof -
  have wd: "Getwd demo_env = Inr ''/work''"
    by (simp add: demo_env_def)
  have a: "initial_content demo_env (entry_tree demo_env ''/work'' ''/a'') [''x''] =
      Some (RegularFile ''base'')"
    by (simp add: entry_tree_def demo_env_def demo_backing_def)
  have b: "initial_content demo_env (entry_tree demo_env ''/work'' ([''/a'', ''/b''] ! 1)) [''x''] =
      Some (RegularFile ''override'')"
    by (simp add: entry_tree_def demo_env_def demo_backing_def)
  have i: "(1::nat) < length [''/a'', ''/b'']" and p: "[''x''] \<noteq> []"
    by simp_all
  have none: "\<forall>j. 1 < j \<and> j < length [''/a'', ''/b''] \<longrightarrow>
      initial_content demo_env (entry_tree demo_env ''/work'' ([''/a'', ''/b''] ! j)) [''x''] = None"
  proof (intro allI impI)
    fix j :: nat
    assume "1 < j \<and> j < length [''/a'', ''/b'']"
    then have False by auto
    then show "initial_content demo_env (entry_tree demo_env ''/work'' ([''/a'', ''/b''] ! j))
        [''x''] = None"
      by (rule FalseE)
  qed
  from C3_last_listed_wins[OF demo_root_ab wd i p b none] demo_root_ab wd a b
  show ?thesis by simp
qed

text \<open>
  Claim C7. A root that \<^verbatim>\<open>createRootMount\<close> returns holds the accumulator of the mount
  loop composed as the upper tree over a synthetic subtree, which contains exactly the
  reserved directories (and its own root) as empty directories. So every reserved path
  resolves in the assembled root: to the host content when the accumulator provides the
  path, to the synthetic empty directory otherwise.
\<close>

theorem C7_reserved_under_host:
  assumes "createRootMount e mounts = Inr root" "Getwd e = Inr wd"
  shows "\<exists>acc.
      mount_loop e wd ''whitelistfs'' \<lparr>ReadOnly = False\<rparr> 0 mounts (None, None) =
        Inr (Some acc, Some acc) \<and>
      root = OverlayRoot (Mounted ''tmpfs'' ''upper'' zero_flags '''')
               (OverlayRoot acc (DirectoryTree zero_flags [''/dev'', ''/sys'', ''/proc'', ''/tmp''])
                  zero_flags)
               zero_flags \<and>
      (\<forall>p. initial_content e (DirectoryTree zero_flags [''/dev'', ''/sys'', ''/proc'', ''/tmp'']) p =
           (if p \<in> {[], [''dev''], [''sys''], [''proc''], [''tmp'']} then Some Dir else None)) \<and>
      (\<forall>d \<in> set submounts.
         lookup (initial_content e) root (path_components d) =
           (case lookup (initial_content e) acc (path_components d) of
              Some v \<Rightarrow> Some v
            | None \<Rightarrow> Some Dir))"
proof -
  from createRootMount_Inr[OF assms(1)] assms(2)
  obtain m0 ms where loop:
      "mount_loop e wd ''whitelistfs'' \<lparr>ReadOnly = False\<rparr> 0 mounts (None, None) =
        Inr (Some (spec_accumulator e wd m0 ms), Some (spec_accumulator e wd m0 ms))"
    and root: "root = spec_root (spec_accumulator e wd m0 ms)"
    by auto
  have reserved: "\<forall>d \<in> set submounts.
      lookup (initial_content e) (spec_root (spec_accumulator e wd m0 ms)) (path_components d) =
        (case lookup (initial_content e) (spec_accumulator e wd m0 ms) (path_components d) of
           Some v \<Rightarrow> Some v
         | None \<Rightarrow> Some Dir)"
    by (simp add: submounts_def path_components_submounts lookup_spec_root)
  show ?thesis
    using loop root reserved synthetic_content[of e]
    by (intro exI[of _ "spec_accumulator e wd m0 ms"]) (simp add: spec_root_def)
qed

lemma demo_wd: "Getwd demo_env = Inr ''/work''"
  by (simp add: demo_env_def)

theorem C7_reserved_under_host_witness:
  "createRootMount demo_env [''/a'', ''/b''] =
     Inr (spec_root (spec_accumulator demo_env ''/work'' ''/a'' [''/b''])) \<and>
   Getwd demo_env = Inr ''/work'' \<and>
   (\<exists>acc.
      spec_root (spec_accumulator demo_env ''/work'' ''/a'' [''/b'']) =
        OverlayRoot (Mounted ''tmpfs'' ''upper'' zero_flags '''')
          (OverlayRoot acc (DirectoryTree zero_flags [''/dev'', ''/sys'', ''/proc'', ''/tmp''])
             zero_flags)
          zero_flags \<and>
      lookup (initial_content demo_env)
        (spec_root (spec_accumulator demo_env ''/work'' ''/a'' [''/b''])) (path_components ''/proc'') =
        (case lookup (initial_content demo_env) acc (path_components ''/proc'') of
           Some v \<Rightarrow> Some v
         | None \<Rightarrow> Some Dir))"
proof -
  have "''/proc'' \<in> set submounts"
    by (simp add: submounts_def)
  with C7_reserved_under_host[OF demo_root_ab demo_wd] demo_root_ab demo_wd
  show ?thesis by blast
qed

text \<open>
  Claim C6. A root that \<^verbatim>\<open>createRootMount\<close> returns is the temporary-storage tree
  composed as the upper tree over everything else, and all the host whitelist mounts (one
  for each entry of the mount list) are in the lower tree. A write through the assembled
  root lands in the temporary-storage tree, where a lookup through the root then finds
  it; it changes no other tree, and no sequence of such writes changes a host whitelist
  tree.
\<close>

theorem C6_writes_land_in_tmpfs:
  assumes "createRootMount e mounts = Inr root"
  shows "(\<exists>lower. root = OverlayRoot (Mounted ''tmpfs'' ''upper'' zero_flags '''') lower zero_flags \<and>
            host_mounts lower = host_mounts root) \<and>
         length (host_mounts root) = length mounts \<and>
         write_target root = Mounted ''tmpfs'' ''upper'' zero_flags '''' \<and>
         lookup (write_inode root p v st) root p = Some v \<and>
         (\<forall>t. t \<noteq> Mounted ''tmpfs'' ''upper'' zero_flags '''' \<longrightarrow> write_inode root p v st t = st t) \<and>
         (\<forall>h \<in> set (host_mounts root).
            fold (\<lambda>w. write_inode root (fst w) (snd w)) ws st h = st h)"
proof -
  from createRootMount_Inr[OF assms]
  obtain wd m0 ms where mounts: "mounts = m0 # ms"
    and root: "root = spec_root (spec_accumulator e wd m0 ms)"
    by auto
  have hm: "host_mounts root = map (entry_tree e wd) mounts"
    by (simp add: root mounts spec_root_def host_mounts_accumulator del: list.map)
  have "\<forall>h \<in> set (host_mounts root). h \<noteq> Mounted ''tmpfs'' ''upper'' zero_flags ''''"
    by (auto simp: hm entry_tree_def)
  then have "\<forall>h \<in> set (host_mounts root).
      fold (\<lambda>w. write_inode root (fst w) (snd w)) ws st h = st h"
    by (induction ws arbitrary: st) (auto simp: root spec_root_def write_inode_def)
  then show ?thesis
    using hm by (auto simp: root spec_root_def write_inode_def)
qed


theorem C6_writes_land_in_tmpfs_witness:
  "createRootMount demo_env [''/a'', ''/b''] =
     Inr (spec_root (spec_accumulator demo_env ''/work'' ''/a'' [''/b''])) \<and>
   host_mounts (spec_root (spec_accumulator demo_env ''/work'' ''/a'' [''/b''])) =
     [entry_tree demo_env ''/work'' ''/a'', entry_tree demo_env ''/work'' ''/b''] \<and>
   write_target (spec_root (spec_accumulator demo_env ''/work'' ''/a'' [''/b''])) =
     Mounted ''tmpfs'' ''upper'' zero_flags '''' \<and>
   fold (\<lambda>w. write_inode (spec_root (spec_accumulator demo_env ''/work'' ''/a'' [''/b'']))
                (fst w) (snd w))
     [([''x''], RegularFile ''new''), ([''y''], Dir)] (initial_content demo_env)
     (entry_tree demo_env ''/work'' ''/a'') =
     initial_content demo_env (entry_tree demo_env ''/work'' ''/a'')"
proof -
  have hm: "host_mounts (spec_root (spec_accumulator demo_env ''/work'' ''/a'' [''/b''])) =
      [entry_tree demo_env ''/work'' ''/a'', entry_tree demo_env ''/work'' ''/b'']"
    by (simp add: spec_root_def host_mounts_accumulator)
  from C6_writes_land_in_tmpfs[OF demo_root_ab,
      where ws = "[([''x''], RegularFile ''new''), ([''y''], Dir)]"
        and st = "initial_content demo_env"]
    demo_root_ab hm
  show ?thesis by simp
qed

text \<open>
  Claim C10. Root assembly mounts one host whitelist tree for each entry of the mount
  list, in order, and every one of them with the \<^verbatim>\<open>ReadOnly\<close> flag false; no mount source
  in the assembled root has the flag set, so nothing but the temporary-storage layer on
  top keeps sandbox writes off the host trees.
\<close>

theorem C10_host_mounts_read_write:
  assumes "createRootMount e mounts = Inr root" "Getwd e = Inr wd"
  shows "host_mounts root = map (entry_tree e wd) mounts \<and>
         (\<forall>h \<in> set (host_mounts root).
            \<exists>device flags data. h = Mounted ''whitelistfs'' device flags data \<and> \<not> ReadOnly flags) \<and>
         (\<forall>f \<in> set (mount_flags root). \<not> ReadOnly f)"
proof -
  from createRootMount_Inr[OF assms(1)] assms(2)
  obtain m0 ms where mounts: "mounts = m0 # ms"
    and root: "root = spec_root (spec_accumulator e wd m0 ms)"
    by auto
  have hm: "host_mounts root = map (entry_tree e wd) mounts"
    by (simp add: root mounts spec_root_def host_mounts_accumulator del: list.map)
  have flags: "\<forall>f \<in> set (mount_flags root). \<not> ReadOnly f"
    using mount_flags_accumulator[of _ e wd m0 ms]
    by (auto simp: root spec_root_def zero_flags_def)
  have "\<forall>h \<in> set (host_mounts root).
      \<exists>device flags data. h = Mounted ''whitelistfs'' device flags data \<and> \<not> ReadOnly flags"
    by (auto simp: hm entry_tree_def)
  with hm flags show ?thesis by simp
qed

theorem C10_host_mounts_read_write_witness:
  "createRootMount demo_env [''/a'', ''/b''] =
     Inr (spec_root (spec_accumulator demo_env ''/work'' ''/a'' [''/b''])) \<and>
   Getwd demo_env = Inr ''/work'' \<and>
   host_mounts (spec_root (spec_accumulator demo_env ''/work'' ''/a'' [''/b''])) =
     [Mounted ''whitelistfs'' '''' \<lparr>ReadOnly = False\<rparr> ''root=/a'',
      Mounted ''whitelistfs'' '''' \<lparr>ReadOnly = False\<rparr> ''root=/b'']"
proof -
  have "map (entry_tree demo_env ''/work'') [''/a'', ''/b''] =
      [Mounted ''whitelistfs'' '''' \<lparr>ReadOnly = False\<rparr> ''root=/a'',
       Mounted ''whitelistfs'' '''' \<lparr>ReadOnly = False\<rparr> ''root=/b'']"
    by (simp add: entry_tree_def)
  with C10_host_mounts_read_write[OF demo_root_ab demo_wd] demo_root_ab demo_wd
  show ?thesis by simp
qed

section \<open>Properties of the namespace step\<close>

lemma createMountNamespace_Inr:
  assumes "createMountNamespace e mounts b = Inr mns"
  shows "\<exists>root. createRootMount e mounts = Inr root \<and> mns_root mns = root"
  using assms
  by (auto simp: createMountNamespace_def NewMountNamespace_def FindFilesystem_def fs_Mount_def
      mns_Mount_def split: sum.splits option.splits if_splits prod.splits)

lemma Run_mounts_built:
  assumes "k_mounts k = None" "Run_mounts e opt k = (None, k')"
  shows "\<exists>mns. createMountNamespace e (Split (Mounts opt) CHR '','') MaxSymlinkTraversals = Inr mns \<and>
     k' = k\<lparr>k_mounts := Some mns\<rparr>"
  using assms by (auto simp: Run_mounts_def Let_def split: sum.splits)

lemma demo_env_simps:
  "Getwd demo_env = Inr ''/work''" "registered demo_env = demo_registered"
  "mount_error demo_env = (\<lambda>name device data. None)" "tree_error demo_env = (\<lambda>subdirs. None)"
  "overlay_error demo_env = (\<lambda>upper lower. None)" "Join demo_env = demo_Join"
  "backing demo_env = demo_backing" "namespace_error demo_env = (\<lambda>root. None)"
  "attach_error demo_env = (\<lambda>dirent inode. None)"
  by (simp_all add: demo_env_def)

lemmas mount_defs =
  createRootMount_def FindFilesystem_def demo_registered_def fs_Mount_def NewOverlayRoot_def
  addSubmountOverlay_def MakeDirectoryTree_def submounts_def Let_def demo_env_simps

text \<open>
  Claim C4, as stated, fails. On an empty mount list the loop leaves the accumulator nil,
  not an empty tree, and the nil pointer goes to the overlay composer as the upper tree,
  so no root is assembled. And \<^verbatim>\<open>Run\<close> never passes an empty list: an empty \<^verbatim>\<open>Mounts\<close>
  option splits into one empty entry, for which the working directory is mounted.
\<close>

theorem C4_empty_mounts_counterexample:
  "mount_loop demo_env ''/work'' ''whitelistfs'' \<lparr>ReadOnly = False\<rparr> 0 [] (None, None) =
     Inr (None, None) \<and>
   createRootMount demo_env [] = Inl (Panic ''nil pointer dereference'') \<and>
   Split (Mounts empty_opt) CHR '','' = [''''] \<and>
   createRootMount demo_env (Split (Mounts empty_opt) CHR '','') =
     Inr (spec_root (Mounted ''whitelistfs'' '''' \<lparr>ReadOnly = False\<rparr> ''root=/work''))"
  by (simp add: mount_defs empty_opt_def spec_root_def demo_Join_def)

lemma Split_not_empty: "Split s sep \<noteq> []"
  by (induction s) (auto split: list.splits)

text \<open>
  Claim C4, amended. \<^verbatim>\<open>Run\<close> never passes an empty mount list to root assembly:
  \<^verbatim>\<open>strings.Split\<close> gives at least one entry for every \<^verbatim>\<open>Mounts\<close> option, and for the empty
  option the one-entry list \<open>['''']\<close>. That entry is relative, so it is joined to the
  working directory, and as \<^verbatim>\<open>filepath.Join(wd, "")\<close> is \<^verbatim>\<open>wd\<close>, the host tree of the working
  directory is mounted, read-write, and is the accumulator. Assembly proceeds as for any
  one-entry list: the root of the namespace that \<^verbatim>\<open>Run\<close> sets is the temporary-storage tree
  over that host tree over the synthetic subtree. In it the entry at each reserved path
  is the working directory's own entry at that path when it has one, and the synthetic
  empty directory otherwise.
\<close>

theorem C4_empty_option_mounts_cwd:
  assumes "Mounts opt = ''''" "k_mounts k = None" "Run_mounts e opt k = (None, k')"
    "Getwd e = Inr wd" "Join e wd '''' = wd"
  shows "Split (Mounts opt1) CHR '','' \<noteq> [] \<and>
    Split (Mounts opt) CHR '','' = [''''] \<and>
    (\<exists>mns. k_mounts k' = Some mns \<and>
       mns_root mns =
         OverlayRoot (Mounted ''tmpfs'' ''upper'' zero_flags '''')
           (OverlayRoot (Mounted ''whitelistfs'' '''' \<lparr>ReadOnly = False\<rparr> (''root='' @ wd))
              (DirectoryTree zero_flags [''/dev'', ''/sys'', ''/proc'', ''/tmp'']) zero_flags)
           zero_flags \<and>
       (\<forall>d \<in> set submounts.
          lookup (initial_content e) (mns_root mns) (path_components d) =
            (case backing e ''whitelistfs'' (''root='' @ wd) (path_components d) of
               Some v \<Rightarrow> Some v
             | None \<Rightarrow> Some Dir)))"
proof -
  have split: "Split (Mounts opt) CHR '','' = ['''']"
    by (simp add: assms(1))
  from Run_mounts_built[OF assms(2,3)] split
  obtain mns where mns: "createMountNamespace e [''''] MaxSymlinkTraversals = Inr mns"
    and k': "k' = k\<lparr>k_mounts := Some mns\<rparr>"
    by auto
  from createMountNamespace_Inr[OF mns]
  have "createRootMount e [''''] = Inr (mns_root mns)" by auto
  from createRootMount_Inr[OF this] assms(4)
  have root: "mns_root mns = spec_root (spec_accumulator e wd '''' [])" by auto
  have acc: "spec_accumulator e wd '''' [] =
      Mounted ''whitelistfs'' '''' \<lparr>ReadOnly = False\<rparr> (''root='' @ wd)"
    by (simp add: spec_accumulator_def entry_tree_def assms(5))
  have reserved: "\<forall>d \<in> set submounts.
      lookup (initial_content e)
        (spec_root (Mounted ''whitelistfs'' '''' \<lparr>ReadOnly = False\<rparr> (''root='' @ wd)))
        (path_components d) =
        (case backing e ''whitelistfs'' (''root='' @ wd) (path_components d) of
           Some v \<Rightarrow> Some v
         | None \<Rightarrow> Some Dir)"
    by (simp add: submounts_def path_components_submounts lookup_spec_root split: option.splits)
  have shape: "spec_root (Mounted ''whitelistfs'' '''' \<lparr>ReadOnly = False\<rparr> (''root='' @ wd)) =
      OverlayRoot (Mounted ''tmpfs'' ''upper'' zero_flags '''')
        (OverlayRoot (Mounted ''whitelistfs'' '''' \<lparr>ReadOnly = False\<rparr> (''root='' @ wd))
           (DirectoryTree zero_flags [''/dev'', ''/sys'', ''/proc'', ''/tmp'']) zero_flags)
        zero_flags"
    by (simp add: spec_root_def)
  have mnsroot: "mns_root mns =
      spec_root (Mounted ''whitelistfs'' '''' \<lparr>ReadOnly = False\<rparr> (''root='' @ wd))"
    using root acc by simp
  have "k_mounts k' = Some mns"
    by (simp add: k')
  moreover have "\<forall>d \<in> set submounts.
      lookup (initial_content e) (mns_root mns) (path_components d) =
        (case backing e ''whitelistfs'' (''root='' @ wd) (path_components d) of
           Some v \<Rightarrow> Some v
         | None \<Rightarrow> Some Dir)"
    unfolding mnsroot by (rule reserved)
  moreover have "mns_root mns =
      OverlayRoot (Mounted ''tmpfs'' ''upper'' zero_flags '''')
        (OverlayRoot (Mounted ''whitelistfs'' '''' \<lparr>ReadOnly = False\<rparr> (''root='' @ wd))
           (DirectoryTree zero_flags [''/dev'', ''/sys'', ''/proc'', ''/tmp'']) zero_flags)
        zero_flags"
    using mnsroot shape by simp
  ultimately show ?thesis
    using split Split_not_empty[of "Mounts opt1" "CHR '',''"] by blast
qed

lemma demo_empty_run:
  "Run_mounts demo_env empty_opt new_kernel =
     (None, new_kernel\<lparr>k_mounts := Some \<lparr>mns_root =
        spec_root (Mounted ''whitelistfs'' '''' \<lparr>ReadOnly = False\<rparr> ''root=/work''),
        mns_mounts = [([''proc''], Mounted ''proc'' ''none'' zero_flags '''')]\<rparr>\<rparr>)"
  by (simp add: Run_mounts_def new_kernel_def empty_opt_def createMountNamespace_def mount_defs
      NewMountNamespace_def FindInode_def mns_Mount_def path_components_submounts
      spec_root_def demo_Join_def demo_backing_def zero_flags_def)

theorem C4_empty_option_mounts_cwd_witness:
  "Mounts empty_opt = '''' \<and> k_mounts new_kernel = None \<and>
   fst (Run_mounts demo_env empty_opt new_kernel) = None \<and> Getwd demo_env = Inr ''/work'' \<and>
   Join demo_env ''/work'' '''' = ''/work'' \<and>
   Split (Mounts demo_opt) CHR '','' \<noteq> [] \<and>
   (\<exists>mns. k_mounts (snd (Run_mounts demo_env empty_opt new_kernel)) = Some mns \<and>
      mns_root mns =
        OverlayRoot (Mounted ''tmpfs'' ''upper'' zero_flags '''')
          (OverlayRoot (Mounted ''whitelistfs'' '''' \<lparr>ReadOnly = False\<rparr> ''root=/work'')
             (DirectoryTree zero_flags [''/dev'', ''/sys'', ''/proc'', ''/tmp'']) zero_flags)
          zero_flags \<and>
      lookup (initial_content demo_env) (mns_root mns) (path_components ''/tmp'') = Some Dir)"
proof -
  have h1: "Mounts empty_opt = ''''" "k_mounts new_kernel = None"
    by (simp_all add: empty_opt_def new_kernel_def)
  have h2: "Run_mounts demo_env empty_opt new_kernel =
      (None, snd (Run_mounts demo_env empty_opt new_kernel))"
    by (simp add: demo_empty_run)
  have h3: "Getwd demo_env = Inr ''/work''" "Join demo_env ''/work'' '''' = ''/work''"
    by (simp_all add: demo_env_simps demo_Join_def)
  have t: "''/tmp'' \<in> set submounts"
    by (simp add: submounts_def)
  have b: "backing demo_env ''whitelistfs'' (''root='' @ ''/work'') (path_components ''/tmp'') = None"
    by (simp add: demo_env_simps demo_backing_def path_components_submounts)
  from C4_empty_option_mounts_cwd[OF h1 h2 h3, where ?opt1.0 = demo_opt]
  obtain mns where m: "k_mounts (snd (Run_mounts demo_env empty_opt new_kernel)) = Some mns"
    and r: "mns_root mns =
        OverlayRoot (Mounted ''tmpfs'' ''upper'' zero_flags '''')
          (OverlayRoot (Mounted ''whitelistfs'' '''' \<lparr>ReadOnly = False\<rparr> (''root='' @ ''/work''))
             (DirectoryTree zero_flags [''/dev'', ''/sys'', ''/proc'', ''/tmp'']) zero_flags)
          zero_flags"
    and l: "\<forall>d \<in> set submounts.
          lookup (initial_content demo_env) (mns_root mns) (path_components d) =
            (case backing demo_env ''whitelistfs'' (''root='' @ ''/work'') (path_components d) of
               Some v \<Rightarrow> Some v
             | None \<Rightarrow> Some Dir)"
    and ne: "Split (Mounts demo_opt) CHR '','' \<noteq> []"
    by blast
  from l t b have tmp: "lookup (initial_content demo_env) (mns_root mns) (path_components ''/tmp'') =
      Some Dir"
    by (metis option.simps(4))
  have f: "fst (Run_mounts demo_env empty_opt new_kernel) = None"
    by (simp add: demo_empty_run)
  have r': "mns_root mns =
      OverlayRoot (Mounted ''tmpfs'' ''upper'' zero_flags [])
        (OverlayRoot (Mounted ''whitelistfs'' [] \<lparr>ReadOnly = False\<rparr> ''root=/work'')
           (DirectoryTree zero_flags [''/dev'', ''/sys'', ''/proc'', ''/tmp'']) zero_flags)
        zero_flags"
    using r by simp
  from m r' tmp h1 f h3 ne show ?thesis
    by blast
qed

lemma walk_errors:
  "walk t b cur todo = Inl err \<Longrightarrow> err = NotFound \<or> err = SymlinkLimitExceeded"
  by (induction t b cur todo rule: walk.induct)
     (auto split: option.splits node.splits nat.splits)

lemma walk_budget:
  "walk t b cur todo = Inr (d, r) \<Longrightarrow>
   r \<le> b \<and>
   (\<forall>b'. b - r \<le> b' \<longrightarrow> walk t b' cur todo = Inr (d, b' - (b - r))) \<and>
   (\<forall>b'. b' < b - r \<longrightarrow> walk t b' cur todo = Inl SymlinkLimitExceeded)"
proof (induction t b cur todo arbitrary: d r rule: walk.induct)
  case (1 t budget cur)
  then show ?case by simp
next
  case (2 t budget cur c rest)
  show ?case
  proof (cases "t (cur @ [c])")
    case None
    with "2.prems" show ?thesis by simp
  next
    case (Some n)
    show ?thesis
    proof (cases n)
      case Dir
      with Some "2.prems" have "walk t budget (cur @ [c]) rest = Inr (d, r)" by simp
      from "2.IH"(1)[OF Some Dir this] Some Dir show ?thesis by simp
    next
      case (RegularFile content)
      with Some "2.prems" have "walk t budget (cur @ [c]) rest = Inr (d, r)" by simp
      from "2.IH"(2)[OF Some RegularFile this] Some RegularFile show ?thesis by simp
    next
      case (Symlink target)
      show ?thesis
      proof (cases budget)
        case 0
        with Some Symlink "2.prems" show ?thesis by simp
      next
        case (Suc budget')
        with Some Symlink "2.prems"
        have w: "walk t budget' (if IsAbs target then [] else cur) (path_components target @ rest) =
            Inr (d, r)"
          by simp
        note ih = "2.IH"(3)[OF Some Symlink Suc w]
        have r: "r \<le> budget'" using ih by simp
        have up: "walk t b' cur (c # rest) = Inr (d, b' - (budget - r))"
          if "budget - r \<le> b'" for b'
        proof -
          from that r Suc obtain b'' where b': "b' = Suc b''" and "budget' - r \<le> b''"
            by (cases b') auto
          with ih have "walk t b'' (if IsAbs target then [] else cur)
              (path_components target @ rest) = Inr (d, b'' - (budget' - r))"
            by simp
          moreover have "b'' - (budget' - r) = b' - (budget - r)"
            using b' Suc r by simp
          ultimately show ?thesis
            using Some Symlink b' by simp
        qed
        have down: "walk t b' cur (c # rest) = Inl SymlinkLimitExceeded"
          if "b' < budget - r" for b'
        proof (cases b')
          case 0
          with Some Symlink show ?thesis by simp
        next
          case (Suc b'')
          with that \<open>budget = Suc budget'\<close> r have "b'' < budget' - r" by simp
          with ih have "walk t b'' (if IsAbs target then [] else cur)
              (path_components target @ rest) = Inl SymlinkLimitExceeded"
            by simp
          with Some Symlink Suc show ?thesis by simp
        qed
        from r Suc up down show ?thesis by simp
      qed
    qed
  qed
qed

lemma walk_not_found:
  "(\<forall>i < length pre. t (cur @ take (Suc i) pre) = Some Dir) \<Longrightarrow> t (cur @ pre @ [c]) = None \<Longrightarrow>
   walk t b cur (pre @ c # rest) = Inl NotFound"
proof (induction pre arbitrary: cur)
  case Nil
  then show ?case by simp
next
  case (Cons x xs)
  from Cons.prems(1)[rule_format, of 0] have x: "t (cur @ [x]) = Some Dir" by simp
  have "\<forall>i < length xs. t ((cur @ [x]) @ take (Suc i) xs) = Some Dir"
    using Cons.prems(1) by auto
  moreover have "t ((cur @ [x]) @ xs @ [c]) = None"
    using Cons.prems(2) by simp
  ultimately have "walk t b (cur @ [x]) (xs @ c # rest) = Inl NotFound"
    by (rule Cons.IH)
  with x show ?case by simp
qed

lemma createMountNamespace_find_fails:
  assumes "createRootMount e mounts = Inr root" "namespace_error e root = None"
    "registered e ''proc''" "mount_error e ''proc'' ''none'' '''' = None"
    "walk (lookup (initial_content e) root) b [] [''proc''] = Inl err"
  shows "createMountNamespace e mounts b = Inl (Wrap ''failed to find mount destination'' err)"
proof -
  from walk_errors[OF assms(5)] have "Errorf ''failed to find mount destination'' err =
      Wrap ''failed to find mount destination'' err"
    by auto
  with assms show ?thesis
    by (simp add: createMountNamespace_def NewMountNamespace_def FindFilesystem_def fs_Mount_def
        FindInode_def path_components_submounts)
qed

lemma createMountNamespace_find_succeeds:
  assumes "createRootMount e mounts = Inr root" "namespace_error e root = None"
    "registered e ''proc''" "mount_error e ''proc'' ''none'' '''' = None"
    "walk (lookup (initial_content e) root) b [] [''proc''] = Inr (d, r)"
    "attach_error e d (Mounted ''proc'' ''none'' zero_flags '''') = None"
  shows "createMountNamespace e mounts b =
     Inr \<lparr>mns_root = root, mns_mounts = [(d, Mounted ''proc'' ''none'' zero_flags '''')]\<rparr>"
  using assms
  by (simp add: createMountNamespace_def NewMountNamespace_def FindFilesystem_def fs_Mount_def
      FindInode_def path_components_submounts mns_Mount_def)

text \<open>
  Claim C8. The lookup of the process-info mount point follows the spec's resolution
  with a budget: a lookup that succeeds having traversed \<open>b - r\<close> links also succeeds
  with a budget of exactly that many, and fails with \<open>SymlinkLimitExceeded\<close> with any
  smaller budget; a path whose leading directories exist and whose next component is
  absent fails with \<open>NotFound\<close>. \<^verbatim>\<open>Run\<close> starts the lookup of \<^verbatim>\<open>/proc\<close> from the root of the
  new namespace with the budget \<open>MaxSymlinkTraversals\<close>: when it fails, the namespace
  step returns the wrapped error and leaves the kernel without a namespace; when it
  succeeds, the process-info filesystem is mounted at the entry reached.
\<close>

theorem C8_symlink_budget:
  "(walk t b cur todo = Inr (d, r) \<longrightarrow>
      r \<le> b \<and> walk t (b - r) cur todo = Inr (d, 0) \<and>
      (\<forall>b'. b' < b - r \<longrightarrow> walk t b' cur todo = Inl SymlinkLimitExceeded)) \<and>
   ((\<forall>i < length pre. t1 (cur1 @ take (Suc i) pre) = Some Dir) \<and> t1 (cur1 @ pre @ [c]) = None \<longrightarrow>
      walk t1 b1 cur1 (pre @ c # rest) = Inl NotFound) \<and>
   (k_mounts k = None \<and> createRootMount e (Split (Mounts opt) CHR '','') = Inr root \<and>
    namespace_error e root = None \<and> registered e ''proc'' \<and>
    mount_error e ''proc'' ''none'' '''' = None \<and>
    walk (lookup (initial_content e) root) MaxSymlinkTraversals [] [''proc''] = Inl err \<longrightarrow>
      (err = NotFound \<or> err = SymlinkLimitExceeded) \<and>
      Run_mounts e opt k =
        (Some (Wrap ''error creating mounts'' (Wrap ''failed to find mount destination'' err)), k)) \<and>
   (k_mounts k2 = None \<and> createRootMount e2 (Split (Mounts opt2) CHR '','') = Inr root2 \<and>
    namespace_error e2 root2 = None \<and> registered e2 ''proc'' \<and>
    mount_error e2 ''proc'' ''none'' '''' = None \<and>
    walk (lookup (initial_content e2) root2) MaxSymlinkTraversals [] [''proc''] = Inr (d2, r2) \<and>
    attach_error e2 d2 (Mounted ''proc'' ''none'' zero_flags '''') = None \<longrightarrow>
      Run_mounts e2 opt2 k2 =
        (None, k2\<lparr>k_mounts := Some \<lparr>mns_root = root2,
                    mns_mounts = [(d2, Mounted ''proc'' ''none'' zero_flags '''')]\<rparr>\<rparr>))"
proof (intro conjI impI)
  assume w: "walk t b cur todo = Inr (d, r)"
  note wb = walk_budget[OF w]
  from wb show "r \<le> b" by simp
  from wb have "walk t (b - r) cur todo = Inr (d, (b - r) - (b - r))" by blast
  then show "walk t (b - r) cur todo = Inr (d, 0)" by simp
  from wb show "\<forall>b'. b' < b - r \<longrightarrow> walk t b' cur todo = Inl SymlinkLimitExceeded" by simp
next
  assume "(\<forall>i < length pre. t1 (cur1 @ take (Suc i) pre) = Some Dir) \<and> t1 (cur1 @ pre @ [c]) = None"
  then show "walk t1 b1 cur1 (pre @ c # rest) = Inl NotFound"
    by (simp add: walk_not_found)
next
  assume a: "k_mounts k = None \<and> createRootMount e (Split (Mounts opt) CHR '','') = Inr root \<and>
    namespace_error e root = None \<and> registered e ''proc'' \<and>
    mount_error e ''proc'' ''none'' '''' = None \<and>
    walk (lookup (initial_content e) root) MaxSymlinkTraversals [] [''proc''] = Inl err"
  then show "err = NotFound \<or> err = SymlinkLimitExceeded"
    using walk_errors by blast
  from a have "createMountNamespace e (Split (Mounts opt) CHR '','') MaxSymlinkTraversals =
      Inl (Wrap ''failed to find mount destination'' err)"
    by (intro createMountNamespace_find_fails) blast+
  with a show "Run_mounts e opt k =
      (Some (Wrap ''error creating mounts'' (Wrap ''failed to find mount destination'' err)), k)"
    by (simp add: Run_mounts_def)
next
  assume a: "k_mounts k2 = None \<and> createRootMount e2 (Split (Mounts opt2) CHR '','') = Inr root2 \<and>
    namespace_error e2 root2 = None \<and> registered e2 ''proc'' \<and>
    mount_error e2 ''proc'' ''none'' '''' = None \<and>
    walk (lookup (initial_content e2) root2) MaxSymlinkTraversals [] [''proc''] = Inr (d2, r2) \<and>
    attach_error e2 d2 (Mounted ''proc'' ''none'' zero_flags '''') = None"
  then have "createMountNamespace e2 (Split (Mounts opt2) CHR '','') MaxSymlinkTraversals =
      Inr \<lparr>mns_root = root2, mns_mounts = [(d2, Mounted ''proc'' ''none'' zero_flags '''')]\<rparr>"
    by (intro createMountNamespace_find_succeeds[where r = r2]) blast+
  with a show "Run_mounts e2 opt2 k2 =
      (None, k2\<lparr>k_mounts := Some \<lparr>mns_root = root2,
                  mns_mounts = [(d2, Mounted ''proc'' ''none'' zero_flags '''')]\<rparr>\<rparr>)"
    by (simp add: Run_mounts_def)
qed

lemmas demo_lookup_defs =
  link_root_def cycle_root_def demo_env_simps demo_backing_def path_components_def
  MaxSymlinkTraversals_def

lemma demo_link_root: "createRootMount demo_env (Split (Mounts other_opt) CHR '','') = Inr link_root"
  by (simp add: mount_defs other_opt_def link_root_def)

lemma demo_cycle_root: "createRootMount demo_env (Split (Mounts cycle_opt) CHR '','') = Inr cycle_root"
  by (simp add: mount_defs cycle_opt_def cycle_root_def)

lemma demo_link_walk:
  "walk (lookup (initial_content demo_env) link_root) MaxSymlinkTraversals [] [''proc''] =
     Inr ([''p2''], 38)"
  by (simp add: demo_lookup_defs)

lemma demo_cycle_walk:
  "walk (lookup (initial_content demo_env) cycle_root) MaxSymlinkTraversals [] [''proc''] =
     Inl SymlinkLimitExceeded"
  by (simp add: demo_lookup_defs)

lemma demo_dev_null:
  "(\<forall>i < length [''dev'']. lookup (initial_content demo_env) link_root ([] @ take (Suc i) [''dev'']) = Some Dir) \<and>
   lookup (initial_content demo_env) link_root ([] @ [''dev''] @ [''null'']) = None"
  by (simp add: demo_lookup_defs)

theorem C8_symlink_budget_witness:
  "walk (lookup (initial_content demo_env) link_root) MaxSymlinkTraversals [] [''proc''] =
     Inr ([''p2''], 38) \<and>
   walk (lookup (initial_content demo_env) link_root) 2 [] [''proc''] = Inr ([''p2''], 0) \<and>
   walk (lookup (initial_content demo_env) link_root) 1 [] [''proc''] = Inl SymlinkLimitExceeded \<and>
   walk (lookup (initial_content demo_env) link_root) MaxSymlinkTraversals [] [''dev'', ''null''] =
     Inl NotFound \<and>
   walk (lookup (initial_content demo_env) cycle_root) MaxSymlinkTraversals [] [''proc''] =
     Inl SymlinkLimitExceeded \<and>
   Run_mounts demo_env cycle_opt new_kernel =
     (Some (Wrap ''error creating mounts''
        (Wrap ''failed to find mount destination'' SymlinkLimitExceeded)), new_kernel) \<and>
   Run_mounts demo_env other_opt new_kernel =
     (None, new_kernel\<lparr>k_mounts := Some \<lparr>mns_root = link_root,
        mns_mounts = [([''p2''], Mounted ''proc'' ''none'' zero_flags '''')]\<rparr>\<rparr>)"
proof -
  note inst = C8_symlink_budget[where t = "lookup (initial_content demo_env) link_root"
      and b = MaxSymlinkTraversals and cur = "[]" and todo = "[''proc'']" and d = "[''p2'']"
      and r = 38 and ?t1.0 = "lookup (initial_content demo_env) link_root" and ?cur1.0 = "[]"
      and pre = "[''dev'']" and c = "''null''" and rest = "[]" and ?b1.0 = MaxSymlinkTraversals
      and k = new_kernel and e = demo_env and opt = cycle_opt and root = cycle_root
      and err = SymlinkLimitExceeded
      and ?k2.0 = new_kernel and ?e2.0 = demo_env and ?opt2.0 = other_opt
      and ?root2.0 = link_root and ?d2.0 = "[''p2'']" and ?r2.0 = 38]
  have k: "k_mounts new_kernel = None"
    by (simp add: new_kernel_def)
  have ext: "namespace_error demo_env link_root = None" "namespace_error demo_env cycle_root = None"
    "registered demo_env ''proc''" "mount_error demo_env ''proc'' ''none'' '''' = None"
    "attach_error demo_env [''p2''] (Mounted ''proc'' ''none'' zero_flags '''') = None"
    by (simp_all add: demo_env_simps demo_registered_def)
  have two: "MaxSymlinkTraversals - 38 = 2"
    by (simp add: MaxSymlinkTraversals_def)
  from inst demo_link_walk two
  have p1: "walk (lookup (initial_content demo_env) link_root) 2 [] [''proc''] = Inr ([''p2''], 0)"
    and p1': "\<forall>b'. b' < 2 \<longrightarrow>
      walk (lookup (initial_content demo_env) link_root) b' [] [''proc''] = Inl SymlinkLimitExceeded"
    by metis+
  from p1' have p2: "walk (lookup (initial_content demo_env) link_root) 1 [] [''proc''] =
      Inl SymlinkLimitExceeded"
    by simp
  from inst demo_dev_null
  have p3: "walk (lookup (initial_content demo_env) link_root) MaxSymlinkTraversals []
      ([''dev''] @ ''null'' # []) = Inl NotFound"
    by blast
  from inst k demo_cycle_root ext demo_cycle_walk
  have p4: "Run_mounts demo_env cycle_opt new_kernel =
      (Some (Wrap ''error creating mounts''
         (Wrap ''failed to find mount destination'' SymlinkLimitExceeded)), new_kernel)"
    by blast
  from inst k demo_link_root ext demo_link_walk
  have p5: "Run_mounts demo_env other_opt new_kernel =
      (None, new_kernel\<lparr>k_mounts := Some \<lparr>mns_root = link_root,
         mns_mounts = [([''p2''], Mounted ''proc'' ''none'' zero_flags '''')]\<rparr>\<rparr>)"
    by blast
  from demo_link_walk p1 p2 p3 demo_cycle_walk p4 p5 show ?thesis
    by simp
qed

section \<open>Properties of the bootstrap\<close>

lemma createFDMap_console_Inr:
  assumes "iteration_order order" "createFDMap ok ctx l True [h0, h1, h2] order hp = (Inr fdm, hp')"
  shows "fd_slot fdm 0 = Some (length hp) \<and> fd_slot fdm 1 = Some (length hp) \<and>
     fd_slot fdm 2 = Some (length hp) \<and>
     hp' = hp @ [\<lparr>host_fd = [h0, h1, h2] ! nat (hd order), file_owner = ctx, isTTY = True,
                   refs = 3, fgProcessGroup = None\<rparr>]"
proof (cases "ok ([h0, h1, h2] ! nat (hd order)) \<and> 2 < l")
  case True
  with createFDMap_console[where order = order and ok = ok and ?h0.0 = h0 and ?h1.0 = h1
      and ?h2.0 = h2 and l = l and ctx = ctx and hp = hp] assms
  show ?thesis by auto
next
  case False
  with iteration_order_cases[OF assms(1)] assms(2)
  show ?thesis
    by (auto simp: fd_defs split: if_splits)
qed

lemma Run_mounts_frame:
  assumes "Run_mounts e opt k = (r, k')"
  shows "k_files k' = k_files k \<and> events k' = events k \<and> init_fdm k' = init_fdm k \<and>
     globalInit k' = globalInit k"
  using assms
  by (auto simp: Run_mounts_def Let_def split: option.splits sum.splits)

lemma Run_process_tty:
  assumes "TTY opt" "fd_slot fdm 0 = Some f" "f < length (k_files k)" "isTTY (k_files k ! f)"
    "fgProcessGroup (k_files k ! f) = None" "events k = []"
    "Run_process b opt fdm k = (res, k')"
  shows "\<exists>pg. prefix (events k') [CreatedProcess pg, ForegroundSet f pg, Started, Exited] \<and>
     (res = None \<or> Started \<in> set (events k') \<longrightarrow>
        events k' = [CreatedProcess pg, ForegroundSet f pg, Started, Exited] \<and>
        init_fdm k' = Some (FDMap_IncRef fdm) \<and> isTTY (k_files k' ! f) \<and>
        fgProcessGroup (k_files k' ! f) = Some pg \<and> globalInit k' = Some pg)"
proof (cases "CreateProcess_res b")
  case (Inl err)
  with assms show ?thesis
    by (auto simp: Run_process_def CreateProcess_def)
next
  case (Inr pg)
  show ?thesis
  proof (cases "Start_err b")
    case None
    with Inr assms show ?thesis
      by (intro exI[of _ pg])
         (auto simp: Run_process_def CreateProcess_def GetFile_def IncRef_def DecRef_def
            InitForegroundProcessGroup_def Run_start_def)
  next
    case (Some err)
    with Inr assms show ?thesis
      by (intro exI[of _ pg])
         (auto simp: Run_process_def CreateProcess_def GetFile_def IncRef_def DecRef_def
            InitForegroundProcessGroup_def Run_start_def)
  qed
qed

text \<open>
  Claim C9. In a run with terminal mode enabled, the log of the sandbox is always a
  prefix of: initial process created, foreground process group of the terminal set,
  started, exited. So the foreground group is set at most once, and never before the
  process is created or after the start. When the run starts the sandbox (in
  particular when \<^verbatim>\<open>Run\<close> returns no error) it is set exactly once, between the creation
  and the start, on the file object that slots 0, 1 and 2 of the initial process share,
  to the process group of the initial process.
\<close>

theorem C9_foreground_group_once:
  assumes "Run b e opt = (res, k)" "TTY opt" "iteration_order (range_order b)"
  shows "\<exists>pg f. prefix (events k) [CreatedProcess pg, ForegroundSet f pg, Started, Exited] \<and>
     (res = None \<or> Started \<in> set (events k) \<longrightarrow>
        events k = [CreatedProcess pg, ForegroundSet f pg, Started, Exited] \<and>
        (\<exists>fdm. init_fdm k = Some fdm \<and> fd_slot fdm 0 = Some f \<and> fd_slot fdm 1 = Some f \<and>
           fd_slot fdm 2 = Some f) \<and>
        isTTY (k_files k ! f) \<and> fgProcessGroup (k_files k ! f) = Some pg \<and>
        globalInit k = Some pg)"
proof (cases "Run_init b opt")
  case (Inl err)
  with assms(1) have "res = Some err" "events k = []"
    by (auto simp: Run_def new_kernel_def)
  then show ?thesis by simp
next
  case (Inr ls)
  have nk: "k_files new_kernel = []" "events new_kernel = []"
    by (simp_all add: new_kernel_def)
  obtain r hp where fd: "createFDMap (host_importable b) (0, 0) ls True [0, 1, 2] (range_order b) [] =
      (r, hp)"
    by (cases "createFDMap (host_importable b) (0, 0) ls True [0, 1, 2] (range_order b) []")
  show ?thesis
  proof (cases r)
    case (Inl err)
    with assms(1,2) Inr fd have "res \<noteq> None" "events k = []"
      by (auto simp: Run_def nk)
    then show ?thesis by simp
  next
    case fdm: (Inr fdm)
    from createFDMap_console_Inr[OF assms(3) fd[unfolded fdm]]
    have slots: "fd_slot fdm 0 = Some 0" "fd_slot fdm 1 = Some 0" "fd_slot fdm 2 = Some 0"
      and hp: "hp = [\<lparr>host_fd = [0, 1, 2] ! nat (hd (range_order b)), file_owner = (0, 0),
          isTTY = True, refs = 3, fgProcessGroup = None\<rparr>]"
      by simp_all
    obtain rm k1 where rm: "Run_mounts e opt (new_kernel\<lparr>k_files := hp\<rparr>) = (rm, k1)"
      by (cases "Run_mounts e opt (new_kernel\<lparr>k_files := hp\<rparr>)")
    from Run_mounts_frame[OF rm]
    have k1: "k_files k1 = hp" "events k1 = []"
      by (simp_all add: nk)
    show ?thesis
    proof (cases rm)
      case (Some err)
      with assms(1,2) Inr fd fdm rm have res: "res \<noteq> None" and kk: "k = k1"
        by (auto simp: Run_def nk)
      have "events k = []"
        unfolding kk by (rule k1(2))
      with res show ?thesis by simp
    next
      case None
      with assms(1,2) Inr fd fdm rm have "Run_process b opt fdm k1 = (res, k)"
        by (simp add: Run_def nk)
      from Run_process_tty[OF assms(2) slots(1) _ _ _ k1(2) this]
      obtain pg where "prefix (events k) [CreatedProcess pg, ForegroundSet 0 pg, Started, Exited] \<and>
         (res = None \<or> Started \<in> set (events k) \<longrightarrow>
            events k = [CreatedProcess pg, ForegroundSet 0 pg, Started, Exited] \<and>
            init_fdm k = Some (FDMap_IncRef fdm) \<and> isTTY (k_files k ! 0) \<and>
            fgProcessGroup (k_files k ! 0) = Some pg \<and> globalInit k = Some pg)"
        by (auto simp: k1 hp)
      moreover have "fd_slot (FDMap_IncRef fdm) 0 = Some 0" "fd_slot (FDMap_IncRef fdm) 1 = Some 0"
        "fd_slot (FDMap_IncRef fdm) 2 = Some 0"
        using slots by (simp_all add: fd_slot_def FDMap_IncRef_def)
      ultimately have "prefix (events k) [CreatedProcess pg, ForegroundSet 0 pg, Started, Exited] \<and>
         (res = None \<or> Started \<in> set (events k) \<longrightarrow>
            events k = [CreatedProcess pg, ForegroundSet 0 pg, Started, Exited] \<and>
            (\<exists>fdm. init_fdm k = Some fdm \<and> fd_slot fdm 0 = Some 0 \<and> fd_slot fdm 1 = Some 0 \<and>
               fd_slot fdm 2 = Some 0) \<and>
            isTTY (k_files k ! 0) \<and> fgProcessGroup (k_files k ! 0) = Some pg \<and>
            globalInit k = Some pg)"
        by blast
      then show ?thesis
        by (rule_tac x = pg in exI, rule_tac x = 0 in exI)
    qed
  qed
qed

lemma demo_boot_simps:
  "usage_Init_err demo_boot = None" "newPlatform_err demo_boot = None"
  "CreateMemFD_err demo_boot = None" "NewMemoryFile_err demo_boot = None"
  "PrepareVDSO_err demo_boot = None" "NewTimekeeper_err demo_boot = None"
  "netStack_res demo_boot = (\<lambda>hostNet. Inr hostNet)" "Configure_err demo_boot = None"
  "kernel_Init_err demo_boot = None" "NewLinuxLimitSet_res demo_boot = Inr 1024"
  "host_importable demo_boot = demo_importable" "range_order demo_boot = [1, 0, 2]"
  "CreateProcess_res demo_boot = Inr 1" "Start_err demo_boot = None"
  by (simp_all add: demo_boot_def)

lemma demo_opt_simps:
  "HostNet demo_opt = False" "TTY demo_opt = True" "Mounts demo_opt = ''/a,/b''"
  by (simp_all add: demo_opt_def)

lemma demo_Run_init: "Run_init demo_boot demo_opt = Inr 1024"
  by (simp add: Run_init_def createMemoryFile_def demo_boot_simps demo_opt_simps)

lemma demo_createFDMap:
  "createFDMap demo_importable (0, 0) 1024 True [0, 1, 2] [1, 0, 2] [] =
     (Inr \<lparr>fd_table = [(2, 0), (0, 0), (1, 0)], fdm_refs = 1\<rparr>,
      [\<lparr>host_fd = 1, file_owner = (0, 0), isTTY = True, refs = 3, fgProcessGroup = None\<rparr>])"
  by (simp add: fd_defs IncRef_def DecRef_def demo_importable_def)

lemma demo_Run_mounts:
  "k_mounts k = None \<Longrightarrow>
   Run_mounts demo_env demo_opt k =
     (None, k\<lparr>k_mounts := Some \<lparr>mns_root =
        spec_root (spec_accumulator demo_env ''/work'' ''/a'' [''/b'']),
        mns_mounts = [([''proc''], Mounted ''proc'' ''none'' zero_flags '''')]\<rparr>\<rparr>)"
  by (simp add: Run_mounts_def demo_opt_def createMountNamespace_def mount_defs
      NewMountNamespace_def FindInode_def mns_Mount_def path_components_submounts
      spec_root_def spec_accumulator_def entry_tree_def demo_backing_def zero_flags_def)

lemma demo_Run:
  "Run demo_boot demo_env demo_opt =
     (None,
      \<lparr>k_mounts = Some \<lparr>mns_root =
          spec_root (spec_accumulator demo_env ''/work'' ''/a'' [''/b'']),
          mns_mounts = [([''proc''], Mounted ''proc'' ''none'' zero_flags '''')]\<rparr>,
       k_files = [\<lparr>host_fd = 1, file_owner = (0, 0), isTTY = True, refs = 3,
                    fgProcessGroup = Some 1\<rparr>],
       init_fdm = Some \<lparr>fd_table = [(2, 0), (0, 0), (1, 0)], fdm_refs = 2\<rparr>,
       globalInit = Some 1,
       events = [CreatedProcess 1, ForegroundSet 0 1, Started, Exited]\<rparr>)"
  by (simp add: Run_def demo_Run_init demo_boot_simps demo_opt_simps demo_createFDMap
      demo_Run_mounts new_kernel_def Run_process_def CreateProcess_def GetFile_def fd_slot_def
      IncRef_def DecRef_def InitForegroundProcessGroup_def Run_start_def FDMap_IncRef_def)

theorem C9_foreground_group_once_witness:
  "Run demo_boot demo_env demo_opt = (None, snd (Run demo_boot demo_env demo_opt)) \<and>
   TTY demo_opt \<and> iteration_order (range_order demo_boot) \<and>
   (\<exists>pg f.
      events (snd (Run demo_boot demo_env demo_opt)) =
        [CreatedProcess pg, ForegroundSet f pg, Started, Exited] \<and>
      (\<exists>fdm. init_fdm (snd (Run demo_boot demo_env demo_opt)) = Some fdm \<and>
         fd_slot fdm 0 = Some f \<and> fd_slot fdm 1 = Some f \<and> fd_slot fdm 2 = Some f) \<and>
      fgProcessGroup (k_files (snd (Run demo_boot demo_env demo_opt)) ! f) = Some pg \<and>
      globalInit (snd (Run demo_boot demo_env demo_opt)) = Some pg)"
proof -
  have h1: "Run demo_boot demo_env demo_opt = (None, snd (Run demo_boot demo_env demo_opt))"
    by (simp add: demo_Run)
  have h2: "TTY demo_opt"
    by (simp add: demo_opt_simps)
  have h3: "iteration_order (range_order demo_boot)"
    by (simp add: demo_boot_simps iteration_order_102)
  from C9_foreground_group_once[OF h1 h2 h3] h1 h2 h3
  show ?thesis by blast
qed










end
